theory Spec2Isabelle
  imports Main
begin

unbundle bit_operations_syntax

section \<open>Exceptions and results\<close>

text \<open>
  The scripts raise nothing themselves. Two exceptions can still leave their functions:
  pySerial's \<^verbatim>\<open>SerialException\<close>, when the connection fails, and Python's
  \<^verbatim>\<open>ZeroDivisionError\<close>, from the division in \<^verbatim>\<open>progress_bar\<close>.
  A function that can raise returns \<open>error + 'a\<close>, with \<open>Inl\<close> for the exception.
\<close>

datatype error = SerialException | ZeroDivisionError

definition and_then :: "error + 'a \<Rightarrow> ('a \<Rightarrow> error + 'b) \<Rightarrow> error + 'b" where
  "and_then m f = (case m of Inl e \<Rightarrow> Inl e | Inr x \<Rightarrow> f x)"

section \<open>The serial port\<close>

text \<open>
  Python integers are unbounded: addresses, data words and bytes are \<open>int\<close>.
  A byte of a command or of a response is an \<open>int\<close> in \<open>0..255\<close>.

  \<open>self.ser\<close> is a record: the device behind the line, the bytes waiting in the input
  buffer, and every command written so far, in order. The line and the device are a
  function, the link: given the state of the device and the bytes of one \<^verbatim>\<open>ser.write\<close>,
  either the connection fails (\<open>None\<close>, pySerial raises) or the device moves to a new
  state and some bytes arrive in the input buffer during the \<^verbatim>\<open>time.sleep\<close> that follows
  the write. A device that stays silent, or answers too late, is a link whose reply is \<open>[]\<close>.
\<close>

record 'd port =
  device :: 'd
  in_buffer :: "int list"
  sent :: "int list list"

type_synonym 'd link = "'d \<Rightarrow> int list \<Rightarrow> ('d \<times> int list) option"

text \<open>\<^verbatim>\<open>self.ser.write(cmd)\<close> and the \<^verbatim>\<open>time.sleep\<close> after it.\<close>

definition ser_write :: "'d link \<Rightarrow> 'd port \<Rightarrow> int list \<Rightarrow> error + 'd port" where
  "ser_write link s cmd =
     (case link (device s) cmd of
        None \<Rightarrow> Inl SerialException
      | Some (d', reply) \<Rightarrow>
          Inr (s\<lparr>device := d', in_buffer := in_buffer s @ reply, sent := sent s @ [cmd]\<rparr>))"

text \<open>\<^verbatim>\<open>self.ser.reset_input_buffer()\<close>\<close>

definition reset_input_buffer :: "'d port \<Rightarrow> 'd port" where
  "reset_input_buffer s = s\<lparr>in_buffer := []\<rparr>"

section \<open>march\_test.py: class MRAMUART\<close>

text \<open>The command bytes that \<^verbatim>\<open>write_mram\<close> and \<^verbatim>\<open>read_mram\<close> build in \<^verbatim>\<open>cmd\<close>.\<close>

definition write_mram_cmd :: "int \<Rightarrow> int \<Rightarrow> int list" where
  "write_mram_cmd addr data =
     (let addr_h = (drop_bit 16 addr) AND 0x03;
          addr_m = (drop_bit 8 addr) AND 0xFF;
          addr_l = addr AND 0xFF;
          data_h = (drop_bit 8 data) AND 0xFF;
          data_l = data AND 0xFF
      in [0x57, addr_h, addr_m, addr_l, data_h, data_l])"

definition read_mram_cmd :: "int \<Rightarrow> int list" where
  "read_mram_cmd addr =
     (let addr_h = (drop_bit 16 addr) AND 0x03;
          addr_m = (drop_bit 8 addr) AND 0xFF;
          addr_l = addr AND 0xFF
      in [0x52, addr_h, addr_m, addr_l])"

definition write_mram :: "'d link \<Rightarrow> 'd port \<Rightarrow> int \<Rightarrow> int \<Rightarrow> error + (bool \<times> 'd port)" where
  "write_mram link s addr data =
     and_then (ser_write link s (write_mram_cmd addr data))
       (\<lambda>s1. Inr (True, reset_input_buffer s1))"

text \<open>
  \<^verbatim>\<open>read_mram\<close> of march\_test.py: when fewer than two bytes wait after the sleep, it
  returns the integer \<open>0xDEAD\<close>.
\<close>

definition read_mram :: "'d link \<Rightarrow> 'd port \<Rightarrow> int \<Rightarrow> error + (int \<times> 'd port)" where
  "read_mram link s addr =
     and_then (ser_write link (reset_input_buffer s) (read_mram_cmd addr))
       (\<lambda>s1. if length (in_buffer s1) \<ge> 2 then
               (let response = take 2 (in_buffer s1);
                    data = (push_bit 8 (response ! 0)) OR (response ! 1)
                in Inr (data, s1\<lparr>in_buffer := drop 2 (in_buffer s1)\<rparr>))
             else Inr (0xDEAD, s1))"

text \<open>The port as \<^verbatim>\<open>MRAMUART.__init__\<close> leaves it: both buffers reset, nothing sent yet.\<close>

definition open_port :: "'d \<Rightarrow> 'd port" where
  "open_port d = \<lparr>device = d, in_buffer = [], sent = []\<rparr>"

section \<open>Python's loops\<close>

text \<open>\<^verbatim>\<open>range(a, b)\<close> and \<^verbatim>\<open>range(a, b, -1)\<close> on integers.\<close>

definition py_range :: "int \<Rightarrow> int \<Rightarrow> int list" where
  "py_range a b = [a..b - 1]"

function py_range_down :: "int \<Rightarrow> int \<Rightarrow> int list" where
  "py_range_down a b = (if a > b then a # py_range_down (a - 1) b else [])"
  by pat_completeness auto
termination
  by (relation "measure (\<lambda>(a, b). nat (a - b))") auto

declare py_range_down.simps [simp del]

text \<open>
  \<^verbatim>\<open>for x in xs: body\<close>, where the body updates the loop's variables \<open>st\<close> and may raise.
  \<^verbatim>\<open>enumerate(xs)\<close> is \<open>enumerate 0 xs\<close>, the index a \<open>nat\<close>.
\<close>

fun for_each :: "('x \<Rightarrow> 'st \<Rightarrow> error + 'st) \<Rightarrow> 'x list \<Rightarrow> 'st \<Rightarrow> error + 'st" where
  "for_each body [] st = Inr st"
| "for_each body (x # xs) st = and_then (body x st) (for_each body xs)"

section \<open>march\_test.py: the tests\<close>

text \<open>
  \<^verbatim>\<open>progress_bar\<close> prints a bar and returns nothing; its first statement is
  \<^verbatim>\<open>percent = current / total\<close>, which raises when \<^verbatim>\<open>total\<close> is \<open>0\<close>.
\<close>

definition progress_bar :: "int \<Rightarrow> int \<Rightarrow> error + unit" where
  "progress_bar current total' = (if total' = 0 then Inl ZeroDivisionError else Inr ())"

text \<open>An entry of \<^verbatim>\<open>errors\<close>: \<^verbatim>\<open>(addr, phase, expected, data)\<close>.\<close>

type_synonym fault = "int \<times> string \<times> int \<times> int"

text \<open>The bodies of the six loops of \<^verbatim>\<open>march_c_test\<close>, on the variables \<^verbatim>\<open>(uart, errors)\<close>.\<close>

definition march_c_phase1 ::
  "'d link \<Rightarrow> int \<Rightarrow> nat \<times> int \<Rightarrow> 'd port \<times> fault list \<Rightarrow> error + ('d port \<times> fault list)" where
  "march_c_phase1 link total' = (\<lambda>(i, addr). \<lambda>(uart, errors).
     and_then (write_mram link uart addr 0x0000) (\<lambda>(_, uart).
     and_then (if i mod 100 = 0 then progress_bar (int i + 1) total' else Inr ()) (\<lambda>_.
     Inr (uart, errors))))"

definition march_c_phase2 ::
  "'d link \<Rightarrow> int \<Rightarrow> nat \<times> int \<Rightarrow> 'd port \<times> fault list \<Rightarrow> error + ('d port \<times> fault list)" where
  "march_c_phase2 link total' = (\<lambda>(i, addr). \<lambda>(uart, errors).
     and_then (read_mram link uart addr) (\<lambda>(data, uart).
     (let errors = (if data \<noteq> 0x0000 then errors @ [(addr, ''Phase2'', 0x0000, data)] else errors) in
     and_then (write_mram link uart addr 0xFFFF) (\<lambda>(_, uart).
     and_then (if i mod 100 = 0 then progress_bar (int i + 1) total' else Inr ()) (\<lambda>_.
     Inr (uart, errors))))))"

definition march_c_phase3 ::
  "'d link \<Rightarrow> int \<Rightarrow> nat \<times> int \<Rightarrow> 'd port \<times> fault list \<Rightarrow> error + ('d port \<times> fault list)" where
  "march_c_phase3 link total' = (\<lambda>(i, addr). \<lambda>(uart, errors).
     and_then (read_mram link uart addr) (\<lambda>(data, uart).
     (let errors = (if data \<noteq> 0xFFFF then errors @ [(addr, ''Phase3'', 0xFFFF, data)] else errors) in
     and_then (write_mram link uart addr 0x0000) (\<lambda>(_, uart).
     and_then (if i mod 100 = 0 then progress_bar (int i + 1) total' else Inr ()) (\<lambda>_.
     Inr (uart, errors))))))"

definition march_c_phase4 ::
  "'d link \<Rightarrow> int \<Rightarrow> nat \<times> int \<Rightarrow> 'd port \<times> fault list \<Rightarrow> error + ('d port \<times> fault list)" where
  "march_c_phase4 link total' = (\<lambda>(i, addr). \<lambda>(uart, errors).
     and_then (read_mram link uart addr) (\<lambda>(data, uart).
     (let errors = (if data \<noteq> 0x0000 then errors @ [(addr, ''Phase4'', 0x0000, data)] else errors) in
     and_then (write_mram link uart addr 0xFFFF) (\<lambda>(_, uart).
     and_then (if i mod 100 = 0 then progress_bar (total' - int i) total' else Inr ()) (\<lambda>_.
     Inr (uart, errors))))))"

definition march_c_phase5 ::
  "'d link \<Rightarrow> int \<Rightarrow> nat \<times> int \<Rightarrow> 'd port \<times> fault list \<Rightarrow> error + ('d port \<times> fault list)" where
  "march_c_phase5 link total' = (\<lambda>(i, addr). \<lambda>(uart, errors).
     and_then (read_mram link uart addr) (\<lambda>(data, uart).
     (let errors = (if data \<noteq> 0xFFFF then errors @ [(addr, ''Phase5'', 0xFFFF, data)] else errors) in
     and_then (write_mram link uart addr 0x0000) (\<lambda>(_, uart).
     and_then (if i mod 100 = 0 then progress_bar (total' - int i) total' else Inr ()) (\<lambda>_.
     Inr (uart, errors))))))"

definition march_c_phase6 ::
  "'d link \<Rightarrow> int \<Rightarrow> nat \<times> int \<Rightarrow> 'd port \<times> fault list \<Rightarrow> error + ('d port \<times> fault list)" where
  "march_c_phase6 link total' = (\<lambda>(i, addr). \<lambda>(uart, errors).
     and_then (read_mram link uart addr) (\<lambda>(data, uart).
     (let errors = (if data \<noteq> 0x0000 then errors @ [(addr, ''Phase6'', 0x0000, data)] else errors) in
     and_then (if i mod 100 = 0 then progress_bar (int i + 1) total' else Inr ()) (\<lambda>_.
     Inr (uart, errors)))))"

text \<open>
  \<^verbatim>\<open>march_c_test(uart, start_addr, end_addr)\<close> returns \<^verbatim>\<open>(len(errors) == 0, errors)\<close>;
  the model returns the port with it.
\<close>

definition march_c_test ::
  "'d link \<Rightarrow> 'd port \<Rightarrow> int \<Rightarrow> int \<Rightarrow> error + ((bool \<times> fault list) \<times> 'd port)" where
  "march_c_test link uart start_addr end_addr =
     (let errors = [];
          total' = end_addr - start_addr + 1
      in
      and_then (for_each (march_c_phase1 link total')
                  (enumerate 0 (py_range start_addr (end_addr + 1))) (uart, errors)) (\<lambda>st.
      and_then (progress_bar total' total') (\<lambda>_.
      and_then (for_each (march_c_phase2 link total')
                  (enumerate 0 (py_range start_addr (end_addr + 1))) st) (\<lambda>st.
      and_then (progress_bar total' total') (\<lambda>_.
      and_then (for_each (march_c_phase3 link total')
                  (enumerate 0 (py_range start_addr (end_addr + 1))) st) (\<lambda>st.
      and_then (progress_bar total' total') (\<lambda>_.
      and_then (for_each (march_c_phase4 link total')
                  (enumerate 0 (py_range_down end_addr (start_addr - 1))) st) (\<lambda>st.
      and_then (progress_bar total' total') (\<lambda>_.
      and_then (for_each (march_c_phase5 link total')
                  (enumerate 0 (py_range_down end_addr (start_addr - 1))) st) (\<lambda>st.
      and_then (progress_bar total' total') (\<lambda>_.
      and_then (for_each (march_c_phase6 link total')
                  (enumerate 0 (py_range start_addr (end_addr + 1))) st) (\<lambda>(uart, errors).
      and_then (progress_bar total' total') (\<lambda>_.
      Inr ((length errors = 0, errors), uart))))))))))))))"

text \<open>
  \<^verbatim>\<open>walking_ones_test(uart, start_addr, count)\<close> and \<^verbatim>\<open>walking_zeros_test\<close>:
  \<^verbatim>\<open>count\<close> is a parameter that the bodies never read.
\<close>

definition walking_ones_test ::
  "'d link \<Rightarrow> 'd port \<Rightarrow> int \<Rightarrow> int \<Rightarrow> error + ((bool \<times> fault list) \<times> 'd port)" where
  "walking_ones_test link uart start_addr count =
     (let errors = [];
          patterns = map (\<lambda>i. push_bit i (1::int)) [0..<16]
      in
      and_then (for_each (\<lambda>(i, pattern). \<lambda>(uart, errors).
                   (let addr = start_addr + int i in
                    and_then (write_mram link uart addr pattern) (\<lambda>(_, uart).
                    Inr (uart, errors))))
                  (enumerate 0 patterns) (uart, errors)) (\<lambda>st.
      and_then (for_each (\<lambda>(i, pattern). \<lambda>(uart, errors).
                   (let addr = start_addr + int i in
                    and_then (read_mram link uart addr) (\<lambda>(data, uart).
                    Inr (uart, if data \<noteq> pattern
                               then errors @ [(addr, ''Walking1s'', pattern, data)]
                               else errors))))
                  (enumerate 0 patterns) st) (\<lambda>(uart, errors).
      Inr ((length errors = 0, errors), uart))))"

definition walking_zeros_test ::
  "'d link \<Rightarrow> 'd port \<Rightarrow> int \<Rightarrow> int \<Rightarrow> error + ((bool \<times> fault list) \<times> 'd port)" where
  "walking_zeros_test link uart start_addr count =
     (let errors = [];
          patterns = map (\<lambda>i. (NOT (push_bit i (1::int))) AND 0xFFFF) [0..<16]
      in
      and_then (for_each (\<lambda>(i, pattern). \<lambda>(uart, errors).
                   (let addr = start_addr + int i in
                    and_then (write_mram link uart addr pattern) (\<lambda>(_, uart).
                    Inr (uart, errors))))
                  (enumerate 0 patterns) (uart, errors)) (\<lambda>st.
      and_then (for_each (\<lambda>(i, pattern). \<lambda>(uart, errors).
                   (let addr = start_addr + int i in
                    and_then (read_mram link uart addr) (\<lambda>(data, uart).
                    Inr (uart, if data \<noteq> pattern
                               then errors @ [(addr, ''Walking0s'', pattern, data)]
                               else errors))))
                  (enumerate 0 patterns) st) (\<lambda>(uart, errors).
      Inr ((length errors = 0, errors), uart))))"

text \<open>The bodies of the four loops of \<^verbatim>\<open>checkerboard_test\<close>.\<close>

definition checkerboard_write ::
  "'d link \<Rightarrow> int \<Rightarrow> nat \<times> int \<Rightarrow> 'd port \<times> fault list \<Rightarrow> error + ('d port \<times> fault list)" where
  "checkerboard_write link total' = (\<lambda>(i, addr). \<lambda>(uart, errors).
     (let pattern = (if i mod 2 = 0 then 0xAAAA else 0x5555) in
     and_then (write_mram link uart addr pattern) (\<lambda>(_, uart).
     and_then (if i mod 100 = 0 then progress_bar (int i + 1) total' else Inr ()) (\<lambda>_.
     Inr (uart, errors)))))"

definition checkerboard_verify ::
  "'d link \<Rightarrow> int \<Rightarrow> nat \<times> int \<Rightarrow> 'd port \<times> fault list \<Rightarrow> error + ('d port \<times> fault list)" where
  "checkerboard_verify link total' = (\<lambda>(i, addr). \<lambda>(uart, errors).
     (let expected = (if i mod 2 = 0 then 0xAAAA else 0x5555) in
     and_then (read_mram link uart addr) (\<lambda>(data, uart).
     (let errors = (if data \<noteq> expected
                    then errors @ [(addr, ''Checkerboard'', expected, data)] else errors) in
     and_then (if i mod 100 = 0 then progress_bar (int i + 1) total' else Inr ()) (\<lambda>_.
     Inr (uart, errors))))))"

definition checkerboard_write_inverse ::
  "'d link \<Rightarrow> int \<Rightarrow> nat \<times> int \<Rightarrow> 'd port \<times> fault list \<Rightarrow> error + ('d port \<times> fault list)" where
  "checkerboard_write_inverse link total' = (\<lambda>(i, addr). \<lambda>(uart, errors).
     (let pattern = (if i mod 2 = 0 then 0x5555 else 0xAAAA) in
     and_then (write_mram link uart addr pattern) (\<lambda>(_, uart).
     and_then (if i mod 100 = 0 then progress_bar (int i + 1) total' else Inr ()) (\<lambda>_.
     Inr (uart, errors)))))"

definition checkerboard_verify_inverse ::
  "'d link \<Rightarrow> int \<Rightarrow> nat \<times> int \<Rightarrow> 'd port \<times> fault list \<Rightarrow> error + ('d port \<times> fault list)" where
  "checkerboard_verify_inverse link total' = (\<lambda>(i, addr). \<lambda>(uart, errors).
     (let expected = (if i mod 2 = 0 then 0x5555 else 0xAAAA) in
     and_then (read_mram link uart addr) (\<lambda>(data, uart).
     (let errors = (if data \<noteq> expected
                    then errors @ [(addr, ''InvCheckerboard'', expected, data)] else errors) in
     and_then (if i mod 100 = 0 then progress_bar (int i + 1) total' else Inr ()) (\<lambda>_.
     Inr (uart, errors))))))"

definition checkerboard_test ::
  "'d link \<Rightarrow> 'd port \<Rightarrow> int \<Rightarrow> int \<Rightarrow> error + ((bool \<times> fault list) \<times> 'd port)" where
  "checkerboard_test link uart start_addr end_addr =
     (let errors = [];
          total' = end_addr - start_addr + 1
      in
      and_then (for_each (checkerboard_write link total')
                  (enumerate 0 (py_range start_addr (end_addr + 1))) (uart, errors)) (\<lambda>st.
      and_then (progress_bar total' total') (\<lambda>_.
      and_then (for_each (checkerboard_verify link total')
                  (enumerate 0 (py_range start_addr (end_addr + 1))) st) (\<lambda>st.
      and_then (progress_bar total' total') (\<lambda>_.
      and_then (for_each (checkerboard_write_inverse link total')
                  (enumerate 0 (py_range start_addr (end_addr + 1))) st) (\<lambda>st.
      and_then (progress_bar total' total') (\<lambda>_.
      and_then (for_each (checkerboard_verify_inverse link total')
                  (enumerate 0 (py_range start_addr (end_addr + 1))) st) (\<lambda>(uart, errors).
      and_then (progress_bar total' total') (\<lambda>_.
      Inr ((length errors = 0, errors), uart))))))))))"

text \<open>The bodies of the two loops of \<^verbatim>\<open>address_uniqueness_test\<close>.\<close>

definition address_uniqueness_write ::
  "'d link \<Rightarrow> int \<Rightarrow> nat \<times> int \<Rightarrow> 'd port \<times> fault list \<Rightarrow> error + ('d port \<times> fault list)" where
  "address_uniqueness_write link total' = (\<lambda>(i, addr). \<lambda>(uart, errors).
     (let data = addr AND 0xFFFF in
     and_then (write_mram link uart addr data) (\<lambda>(_, uart).
     and_then (if i mod 100 = 0 then progress_bar (int i + 1) total' else Inr ()) (\<lambda>_.
     Inr (uart, errors)))))"

definition address_uniqueness_verify ::
  "'d link \<Rightarrow> int \<Rightarrow> nat \<times> int \<Rightarrow> 'd port \<times> fault list \<Rightarrow> error + ('d port \<times> fault list)" where
  "address_uniqueness_verify link total' = (\<lambda>(i, addr). \<lambda>(uart, errors).
     (let expected = addr AND 0xFFFF in
     and_then (read_mram link uart addr) (\<lambda>(data, uart).
     (let errors = (if data \<noteq> expected
                    then errors @ [(addr, ''AddressUnique'', expected, data)] else errors) in
     and_then (if i mod 100 = 0 then progress_bar (int i + 1) total' else Inr ()) (\<lambda>_.
     Inr (uart, errors))))))"

definition address_uniqueness_test ::
  "'d link \<Rightarrow> 'd port \<Rightarrow> int \<Rightarrow> int \<Rightarrow> error + ((bool \<times> fault list) \<times> 'd port)" where
  "address_uniqueness_test link uart start_addr end_addr =
     (let errors = [];
          total' = end_addr - start_addr + 1
      in
      and_then (for_each (address_uniqueness_write link total')
                  (enumerate 0 (py_range start_addr (end_addr + 1))) (uart, errors)) (\<lambda>st.
      and_then (progress_bar total' total') (\<lambda>_.
      and_then (for_each (address_uniqueness_verify link total')
                  (enumerate 0 (py_range start_addr (end_addr + 1))) st) (\<lambda>(uart, errors).
      and_then (progress_bar total' total') (\<lambda>_.
      Inr ((length errors = 0, errors), uart))))))"

section \<open>main.py and mram\_test.py\<close>

text \<open>
  \<^verbatim>\<open>MRAMUART.read_mram\<close> of main.py (the methods of mram\_test.py and
  non\_volatility\_test.py send and decode the same bytes): when fewer than two bytes wait,
  it returns \<^verbatim>\<open>None\<close>.
\<close>

definition main_read_mram :: "'d link \<Rightarrow> 'd port \<Rightarrow> int \<Rightarrow> error + (int option \<times> 'd port)" where
  "main_read_mram link s addr =
     and_then (ser_write link (reset_input_buffer s) (read_mram_cmd addr))
       (\<lambda>s1. if length (in_buffer s1) \<ge> 2 then
               (let response = take 2 (in_buffer s1);
                    data = (push_bit 8 (response ! 0)) OR (response ! 1)
                in Inr (Some data, s1\<lparr>in_buffer := drop 2 (in_buffer s1)\<rparr>))
             else Inr (None, s1))"

text \<open>
  The branch of \<^verbatim>\<open>MRAMTerminal.run\<close> (mram\_test.py) for the command \<^verbatim>\<open>w <addr> <data>\<close>,
  once both numbers are parsed: out of range, it prints a message and goes on to the next
  command; in range, it calls \<^verbatim>\<open>write_mram\<close>, whose bytes on the line are those of
  march\_test.py's. The branch for \<^verbatim>\<open>r <addr>\<close> checks the address alike and drops the
  value read. The loop catches every \<^verbatim>\<open>Exception\<close>, prints it and goes on to the next
  command, so a failure of the connection leaves the branch with the port as it was and
  nothing is raised.
\<close>

definition terminal_write :: "'d link \<Rightarrow> 'd port \<Rightarrow> int \<Rightarrow> int \<Rightarrow> 'd port" where
  "terminal_write link s addr data =
     (if addr < 0 \<or> addr > 0x3FFFF then s
      else if data < 0 \<or> data > 0xFFFF then s
      else (case write_mram link s addr data of
              Inl e \<Rightarrow> s
            | Inr (_, s') \<Rightarrow> s'))"

definition terminal_read :: "'d link \<Rightarrow> 'd port \<Rightarrow> int \<Rightarrow> 'd port" where
  "terminal_read link s addr =
     (if addr < 0 \<or> addr > 0x3FFFF then s
      else (case main_read_mram link s addr of
              Inl e \<Rightarrow> s
            | Inr (_, s') \<Rightarrow> s'))"

section \<open>Test scripts and mock devices\<close>

text \<open>
  The specification describes a test as a script of steps, each a write or a read with the
  value it expects and the name of its phase. A script runs step by step; a read whose
  value differs from the expected one adds one fault record
  \<open>(address, name, expected, observed)\<close> and the run goes on.
\<close>

datatype step = Write int int | Read string int int

fun exec_step :: "'d link \<Rightarrow> step \<Rightarrow> 'd port \<times> fault list \<Rightarrow> error + ('d port \<times> fault list)" where
  "exec_step link (Write addr word) (uart, faults) =
     and_then (write_mram link uart addr word) (\<lambda>(_, uart'). Inr (uart', faults))"
| "exec_step link (Read name addr expected) (uart, faults) =
     and_then (read_mram link uart addr) (\<lambda>(observed, uart').
       Inr (uart', if observed \<noteq> expected
                   then faults @ [(addr, name, expected, observed)] else faults))"

definition run_script ::
  "'d link \<Rightarrow> 'd port \<Rightarrow> step list \<Rightarrow> error + ((bool \<times> fault list) \<times> 'd port)" where
  "run_script link uart script =
     and_then (for_each (exec_step link) script (uart, []))
       (\<lambda>(uart', faults). Inr ((faults = [], faults), uart'))"

text \<open>The bytes a step puts on the line.\<close>

fun step_cmd :: "step \<Rightarrow> int list" where
  "step_cmd (Write addr word) = write_mram_cmd addr word"
| "step_cmd (Read name addr expected) = read_mram_cmd addr"

text \<open>
  The values the reads of a script return, in order, when the script is run to its end,
  and the fault records they give: one for each read whose value is not the expected one.
\<close>

fun observations :: "'d link \<Rightarrow> step list \<Rightarrow> 'd port \<Rightarrow> error + (int list \<times> 'd port)" where
  "observations link [] uart = Inr ([], uart)"
| "observations link (Write addr word # script) uart =
     and_then (write_mram link uart addr word) (\<lambda>(_, uart'). observations link script uart')"
| "observations link (Read name addr expected # script) uart =
     and_then (read_mram link uart addr) (\<lambda>(observed, uart').
     and_then (observations link script uart') (\<lambda>(obs, uart'').
     Inr (observed # obs, uart'')))"

fun faults_of :: "step list \<Rightarrow> int list \<Rightarrow> fault list" where
  "faults_of [] obs = []"
| "faults_of (Write addr word # script) obs = faults_of script obs"
| "faults_of (Read name addr expected # script) [] = []"
| "faults_of (Read name addr expected # script) (observed # obs) =
     (if observed \<noteq> expected then [(addr, name, expected, observed)] else [])
       @ faults_of script obs"

fun is_read :: "step \<Rightarrow> bool" where
  "is_read (Read name addr expected) = True"
| "is_read (Write addr word) = False"

text \<open>The values a script expects from its reads of one address, in order.\<close>

fun expected_at :: "int \<Rightarrow> step list \<Rightarrow> int list" where
  "expected_at a [] = []"
| "expected_at a (Write addr word # script) = expected_at a script"
| "expected_at a (Read name addr expected # script) =
     (if addr = a then [expected] else []) @ expected_at a script"

text \<open>A device that never answers: every read runs into the timeout.\<close>

definition silent_link :: "unit link" where
  "silent_link d cmd = Some (d, [])"

text \<open>A device that answers every command with the same two bytes.\<close>

definition constant_link :: "int \<Rightarrow> int \<Rightarrow> unit link" where
  "constant_link hi lo d cmd = Some (d, [hi, lo])"

text \<open>
  Modelled from the spec: the ideal mock transport of the specification's testable
  properties, which is no part of the repository. Its state is the memory, a word for every
  address, \<open>0x0000\<close> where nothing was written. A write command stores its word at its
  address; a read command is answered with the two bytes of the word at its address,
  high byte first; the connection never fails.
\<close>

definition ideal_link :: "(int \<Rightarrow> int) link" where
  "ideal_link mem cmd =
     (case cmd of
        [opcode, addr_h, addr_m, addr_l, data_h, data_l] \<Rightarrow>
          if opcode = 0x57
          then Some (mem((push_bit 16 addr_h OR push_bit 8 addr_m OR addr_l)
                           := (push_bit 8 data_h OR data_l)), [])
          else Some (mem, [])
      | [opcode, addr_h, addr_m, addr_l] \<Rightarrow>
          if opcode = 0x52
          then (let word = mem (push_bit 16 addr_h OR push_bit 8 addr_m OR addr_l)
                in Some (mem, [(drop_bit 8 word) AND 0xFF, word AND 0xFF]))
          else Some (mem, [])
      | _ \<Rightarrow> Some (mem, []))"

definition blank_memory :: "int \<Rightarrow> int" where
  "blank_memory a = 0x0000"

text \<open>
  March C as the specification words it: six phases over \<open>[start, end]\<close>, the fourth and
  the fifth from the last address down to the first.
\<close>

definition march_c_script :: "int \<Rightarrow> int \<Rightarrow> step list" where
  "march_c_script start_addr end_addr =
     map (\<lambda>a. Write a 0x0000) [start_addr..end_addr]
   @ concat (map (\<lambda>a. [Read ''Phase2'' a 0x0000, Write a 0xFFFF]) [start_addr..end_addr])
   @ concat (map (\<lambda>a. [Read ''Phase3'' a 0xFFFF, Write a 0x0000]) [start_addr..end_addr])
   @ concat (map (\<lambda>a. [Read ''Phase4'' a 0x0000, Write a 0xFFFF]) (rev [start_addr..end_addr]))
   @ concat (map (\<lambda>a. [Read ''Phase5'' a 0xFFFF, Write a 0x0000]) (rev [start_addr..end_addr]))
   @ map (\<lambda>a. Read ''Phase6'' a 0x0000) [start_addr..end_addr]"

text \<open>
  The walking tests as the specification words them: for each bit \<open>i\<close> of the sixteen,
  the pattern is written to \<open>start + i\<close>; after the sixteen writes each address is read
  back and compared with its pattern.
\<close>

definition walking_ones_script :: "int \<Rightarrow> step list" where
  "walking_ones_script start_addr =
     map (\<lambda>i. Write (start_addr + int i) (2 ^ i)) [0..<16]
   @ map (\<lambda>i. Read ''Walking1s'' (start_addr + int i) (2 ^ i)) [0..<16]"

definition walking_zeros_script :: "int \<Rightarrow> step list" where
  "walking_zeros_script start_addr =
     map (\<lambda>i. Write (start_addr + int i) ((NOT (2 ^ i)) AND 0xFFFF)) [0..<16]
   @ map (\<lambda>i. Read ''Walking0s'' (start_addr + int i) ((NOT (2 ^ i)) AND 0xFFFF)) [0..<16]"

text \<open>
  The checkerboard as the specification words it: the two patterns alternate with the
  parity of the address, \<open>0xAAAA\<close> at the addresses of the parity of the first one; the
  second pass swaps the two patterns.
\<close>

definition checker :: "int \<Rightarrow> int \<Rightarrow> int" where
  "checker start_addr a = (if a mod 2 = start_addr mod 2 then 0xAAAA else 0x5555)"

definition inverse_checker :: "int \<Rightarrow> int \<Rightarrow> int" where
  "inverse_checker start_addr a = (if a mod 2 = start_addr mod 2 then 0x5555 else 0xAAAA)"

definition checkerboard_script :: "int \<Rightarrow> int \<Rightarrow> step list" where
  "checkerboard_script start_addr end_addr =
     map (\<lambda>a. Write a (checker start_addr a)) [start_addr..end_addr]
   @ map (\<lambda>a. Read ''Checkerboard'' a (checker start_addr a)) [start_addr..end_addr]
   @ map (\<lambda>a. Write a (inverse_checker start_addr a)) [start_addr..end_addr]
   @ map (\<lambda>a. Read ''InvCheckerboard'' a (inverse_checker start_addr a)) [start_addr..end_addr]"

text \<open>Address uniqueness: every address is written with its own low 16 bits, then verified.\<close>

definition address_uniqueness_script :: "int \<Rightarrow> int \<Rightarrow> step list" where
  "address_uniqueness_script start_addr end_addr =
     map (\<lambda>a. Write a (a mod 65536)) [start_addr..end_addr]
   @ map (\<lambda>a. Read ''AddressUnique'' a (a mod 65536)) [start_addr..end_addr]"

text \<open>The address a step works on.\<close>

fun step_addr :: "step \<Rightarrow> int" where
  "step_addr (Write addr word) = addr"
| "step_addr (Read name addr expected) = addr"

text \<open>
  The connection holds along a script, from a state of the device, when the link answers
  the command of every step in the state the device has reached by then.
\<close>

fun link_holds :: "'d link \<Rightarrow> step list \<Rightarrow> 'd \<Rightarrow> bool" where
  "link_holds link [] d = True"
| "link_holds link (x # script) d =
     (case link d (step_cmd x) of
        None \<Rightarrow> False
      | Some (d', reply) \<Rightarrow> link_holds link script d')"

text \<open>
  A test runs its script to the end when this holds of its result: if the connection holds
  along the script, every step is executed whatever the reads return, all the commands of
  the script are sent, in order, every read returns a value, and the result is the list of
  the faults of these values; if the connection does not hold, the result is pySerial's
  exception.
\<close>

definition runs_to_end ::
  "'d link \<Rightarrow> 'd port \<Rightarrow> step list \<Rightarrow> error + ((bool \<times> fault list) \<times> 'd port) \<Rightarrow> bool" where
  "runs_to_end link uart script result \<longleftrightarrow>
     (if link_holds link script (device uart)
      then (\<exists>obs uart'. observations link script uart = Inr (obs, uart')
              \<and> length obs = length (filter is_read script)
              \<and> sent uart' = sent uart @ map step_cmd script
              \<and> result = Inr ((faults_of script obs = [], faults_of script obs), uart'))
      else result = Inl SerialException)"

section \<open>The codec\<close>

lemma and_then_Inr [simp]: "and_then (Inr x) f = f x"
  by (simp add: and_then_def)

lemma and_then_Inl [simp]: "and_then (Inl e) f = Inl e"
  by (simp add: and_then_def)

lemma low_byte: "(x::int) AND 0xFF = x mod 256"
proof -
  have "x AND mask 8 = x mod 2 ^ 8"
    by (simp only: take_bit_eq_mask [symmetric] take_bit_eq_mod)
  then show ?thesis
    by (simp add: mask_eq_exp_minus_1)
qed

lemma low_two_bits: "(x::int) AND 0x03 = x mod 4"
proof -
  have "x AND mask 2 = x mod 2 ^ 2"
    by (simp only: take_bit_eq_mask [symmetric] take_bit_eq_mod)
  then show ?thesis
    by (simp add: mask_eq_exp_minus_1)
qed

lemma write_mram_cmd_arith:
  "write_mram_cmd addr data =
     [0x57, (addr div 65536) mod 4, (addr div 256) mod 256, addr mod 256,
      (data div 256) mod 256, data mod 256]"
  by (simp add: write_mram_cmd_def Let_def low_byte low_two_bits drop_bit_eq_div)

lemma read_mram_cmd_arith:
  "read_mram_cmd addr = [0x52, (addr div 65536) mod 4, (addr div 256) mod 256, addr mod 256]"
  by (simp add: read_mram_cmd_def Let_def low_byte low_two_bits drop_bit_eq_div)

lemma and_FF_take: "(x::int) AND 0xFF = take_bit 8 x"
  by (simp add: low_byte take_bit_eq_mod)

lemma and_3_take: "(x::int) AND 0x03 = take_bit 2 x"
  by (simp add: low_two_bits take_bit_eq_mod)

text \<open>The three address bytes carry the low 18 bits of the address and nothing else.\<close>

lemma reassemble_addr:
  "push_bit 16 ((drop_bit 16 a) AND 0x03) OR push_bit 8 ((drop_bit 8 a) AND 0xFF) OR (a AND 0xFF)
     = take_bit 18 (a::int)"
  unfolding and_FF_take and_3_take
proof (rule bit_eqI)
  fix n :: nat
  consider "n < 8" | "8 \<le> n" "n < 16" | "16 \<le> n"
    by linarith
  then show "bit (push_bit 16 (take_bit 2 (drop_bit 16 a)) OR
                  push_bit 8 (take_bit 8 (drop_bit 8 a)) OR take_bit 8 a) n
           = bit (take_bit 18 a) n"
    by cases (auto simp add: bit_simps)
qed

text \<open>The two data bytes carry the low 16 bits of the word.\<close>

lemma reassemble_word:
  "push_bit 8 ((drop_bit 8 w) AND 0xFF) OR (w AND 0xFF) = take_bit 16 (w::int)"
  unfolding and_FF_take
  by (rule bit_eqI) (auto simp add: bit_simps)

lemma write_mram_eq:
  "write_mram link s addr data =
     (case link (device s) (write_mram_cmd addr data) of
        None \<Rightarrow> Inl SerialException
      | Some (d', reply) \<Rightarrow>
          Inr (True, s\<lparr>device := d', in_buffer := [],
                         sent := sent s @ [write_mram_cmd addr data]\<rparr>))"
  by (simp add: write_mram_def ser_write_def reset_input_buffer_def split: option.split)

lemma read_mram_sent:
  "(case read_mram link s addr of
      Inl e \<Rightarrow> e = SerialException \<and> link (device s) (read_mram_cmd addr) = None
    | Inr (data, s') \<Rightarrow> sent s' = sent s @ [read_mram_cmd addr])"
  by (simp add: read_mram_def ser_write_def reset_input_buffer_def Let_def
      split: option.split)

lemma read_mram_reply:
  "link (device s) (read_mram_cmd addr) = Some (d', [hi, lo]) \<Longrightarrow>
   read_mram link s addr =
     Inr (push_bit 8 hi OR lo,
          s\<lparr>device := d', in_buffer := [], sent := sent s @ [read_mram_cmd addr]\<rparr>)"
  by (simp add: read_mram_def ser_write_def reset_input_buffer_def Let_def)

text \<open>
  Claim C3. For an address in \<open>[0, 0x3FFFF]\<close> and a word in \<open>[0, 0xFFFF]\<close>, the write
  command is the six bytes \<open>0x57\<close>, \<open>(addr>>16)&0x03\<close>, \<open>(addr>>8)&0xFF\<close>, \<open>addr&0xFF\<close>,
  \<open>(word>>8)&0xFF\<close>, \<open>word&0xFF\<close>, and the read command the four bytes \<open>0x52\<close> and
  the same three address bytes; they are what \<open>write_mram\<close> and \<open>read_mram\<close> put on the line
  whenever the connection holds. The high address byte lies in \<open>0..3\<close>, so only its two low
  bits can be set, and the three address bytes put together again give the address.
\<close>

theorem encode_commands:
  assumes "0 \<le> addr" and "addr \<le> 0x3FFFF" and "0 \<le> word" and "word \<le> 0xFFFF"
  shows "write_mram_cmd addr word =
           [0x57, (drop_bit 16 addr) AND 0x03, (drop_bit 8 addr) AND 0xFF, addr AND 0xFF,
            (drop_bit 8 word) AND 0xFF, word AND 0xFF]
       \<and> read_mram_cmd addr =
           [0x52, (drop_bit 16 addr) AND 0x03, (drop_bit 8 addr) AND 0xFF, addr AND 0xFF]
       \<and> (case write_mram link s addr word of
             Inl e \<Rightarrow> link (device s) (write_mram_cmd addr word) = None
           | Inr (ok, s') \<Rightarrow> sent s' = sent s @ [write_mram_cmd addr word])
       \<and> (case read_mram link s addr of
             Inl e \<Rightarrow> link (device s) (read_mram_cmd addr) = None
           | Inr (data, s') \<Rightarrow> sent s' = sent s @ [read_mram_cmd addr])
       \<and> 0 \<le> read_mram_cmd addr ! 1 \<and> read_mram_cmd addr ! 1 \<le> 3
       \<and> (read_mram_cmd addr ! 1) AND (NOT 0x03) = 0
       \<and> write_mram_cmd addr word ! 1 = read_mram_cmd addr ! 1
       \<and> push_bit 16 (read_mram_cmd addr ! 1) OR push_bit 8 (read_mram_cmd addr ! 2)
            OR (read_mram_cmd addr ! 3) = addr
       \<and> push_bit 16 (write_mram_cmd addr word ! 1) OR push_bit 8 (write_mram_cmd addr word ! 2)
            OR (write_mram_cmd addr word ! 3) = addr"
proof -
  have a: "take_bit 18 addr = addr"
    using assms by (simp add: take_bit_int_eq_self)
  have w: "(case write_mram link s addr word of
             Inl e \<Rightarrow> link (device s) (write_mram_cmd addr word) = None
           | Inr (ok, s') \<Rightarrow> sent s' = sent s @ [write_mram_cmd addr word])"
    by (simp add: write_mram_eq split: option.split)
  have r: "(case read_mram link s addr of
             Inl e \<Rightarrow> link (device s) (read_mram_cmd addr) = None
           | Inr (data, s') \<Rightarrow> sent s' = sent s @ [read_mram_cmd addr])"
    using read_mram_sent [of link s addr] by (auto split: sum.splits)
  have h: "0 \<le> (drop_bit 16 addr) AND 0x03" "(drop_bit 16 addr) AND 0x03 \<le> 3"
    by (simp_all add: low_two_bits)
  have hb: "((drop_bit 16 addr) AND 0x03) AND (NOT 0x03) = 0"
    by (simp add: and.assoc)
  have re: "push_bit 16 ((drop_bit 16 addr) AND 0x03) OR push_bit 8 ((drop_bit 8 addr) AND 0xFF)
              OR (addr AND 0xFF) = addr"
    by (simp only: reassemble_addr a)
  show ?thesis
    using w r h hb re by (simp add: write_mram_cmd_def read_mram_cmd_def Let_def)
qed

theorem encode_commands_witness:
  "(0::int) \<le> 0x2ABCD \<and> (0x2ABCD::int) \<le> 0x3FFFF \<and> (0::int) \<le> 0x1234 \<and> (0x1234::int) \<le> 0xFFFF
   \<and> write_mram_cmd 0x2ABCD 0x1234 = [0x57, 0x02, 0xAB, 0xCD, 0x12, 0x34]
   \<and> read_mram_cmd 0x2ABCD = [0x52, 0x02, 0xAB, 0xCD]
   \<and> (\<exists>s'. write_mram silent_link (open_port ()) 0x2ABCD 0x1234 = Inr (True, s')
          \<and> sent s' = [[0x57, 0x02, 0xAB, 0xCD, 0x12, 0x34]])
   \<and> (\<exists>data s'. read_mram silent_link (open_port ()) 0x2ABCD = Inr (data, s')
          \<and> sent s' = [[0x52, 0x02, 0xAB, 0xCD]])
   \<and> push_bit 16 (0x02::int) OR push_bit 8 0xAB OR 0xCD = 0x2ABCD"
  using encode_commands [of "0x2ABCD" "0x1234" silent_link "open_port ()"]
  by (simp add: write_mram_cmd_def read_mram_cmd_def write_mram_eq read_mram_def ser_write_def
      reset_input_buffer_def silent_link_def open_port_def)

text \<open>
  Claim C4. For a word in \<open>[0, 0xFFFF]\<close>, the high byte \<open>(word>>8)&0xFF\<close> and the low
  byte \<open>word&0xFF\<close>, put together as \<open>(high<<8)|low\<close>, give the word back. These are
  the two data bytes of the write command, and \<open>read_mram\<close> returns the word when the
  device answers with them.
\<close>

theorem decode_round_trip:
  assumes "0 \<le> word" and "word \<le> 0xFFFF"
  shows "push_bit 8 ((drop_bit 8 word) AND 0xFF) OR (word AND 0xFF) = word
       \<and> drop 4 (write_mram_cmd addr word) = [(drop_bit 8 word) AND 0xFF, word AND 0xFF]
       \<and> (link (device s) (read_mram_cmd a) = Some (d', drop 4 (write_mram_cmd addr word)) \<longrightarrow>
            (\<exists>s'. read_mram link s a = Inr (word, s')))"
proof -
  have t: "take_bit 16 word = word"
    using assms by (simp add: take_bit_int_eq_self)
  have rt: "push_bit 8 ((drop_bit 8 word) AND 0xFF) OR (word AND 0xFF) = word"
    by (simp only: reassemble_word t)
  have d: "drop 4 (write_mram_cmd addr word) = [(drop_bit 8 word) AND 0xFF, word AND 0xFF]"
    by (simp add: write_mram_cmd_def Let_def)
  show ?thesis
    using rt d read_mram_reply [of link s a d' "(drop_bit 8 word) AND 0xFF" "word AND 0xFF"]
    by auto
qed

theorem decode_round_trip_witness:
  "(0::int) \<le> 0xDEAD \<and> (0xDEAD::int) \<le> 0xFFFF
   \<and> drop 4 (write_mram_cmd 0x100 0xDEAD) = [0xDE, 0xAD]
   \<and> constant_link 0xDE 0xAD (device (open_port ())) (read_mram_cmd 0x100)
        = Some ((), drop 4 (write_mram_cmd 0x100 0xDEAD))
   \<and> (\<exists>s'. read_mram (constant_link 0xDE 0xAD) (open_port ()) 0x100 = Inr (0xDEAD, s'))"
  using decode_round_trip [of "0xDEAD" "0x100" "constant_link 0xDE 0xAD" "open_port ()" "0x100" "()"]
  by (simp add: write_mram_cmd_def constant_link_def)

section \<open>Loops as scripts\<close>

lemma and_then_assoc: "and_then (and_then m f) g = and_then m (\<lambda>x. and_then (f x) g)"
  by (cases m) simp_all

lemma for_each_append:
  "for_each body (xs @ ys) st = and_then (for_each body xs st) (for_each body ys)"
proof (induction xs arbitrary: st)
  case Nil
  show ?case by simp
next
  case (Cons x xs)
  show ?case
    by (cases "body x st") (simp_all add: Cons.IH)
qed

lemma for_each_concat:
  assumes "\<And>x st. body x st = for_each g (steps x) st"
  shows "for_each body xs st = for_each g (concat (map steps xs)) st"
proof (induction xs arbitrary: st)
  case Nil
  show ?case by simp
next
  case (Cons x xs)
  have ih: "for_each body xs = for_each g (concat (map steps xs))"
    by (rule ext) (rule Cons.IH)
  have "for_each body (x # xs) st = and_then (body x st) (for_each body xs)"
    by simp
  also have "\<dots> = and_then (for_each g (steps x) st) (for_each g (concat (map steps xs)))"
    unfolding ih assms [of x st] ..
  also have "\<dots> = for_each g (concat (map steps (x # xs))) st"
    by (simp add: for_each_append)
  finally show ?case .
qed

lemma py_range_upto: "py_range a (b + 1) = [a..b]"
  by (simp add: py_range_def)

lemma py_range_down_rev: "py_range_down a b = rev [b + 1..a]"
proof (induction a b rule: py_range_down.induct)
  case (1 a b)
  show ?case
  proof (cases "a > b")
    case True
    then have "[b + 1..a] = [b + 1..a - 1] @ [a]"
      by (simp add: upto_rec2)
    with True "1.IH" show ?thesis
      by (simp add: py_range_down.simps [of a b])
  next
    case False
    then show ?thesis
      by (simp add: py_range_down.simps [of a b])
  qed
qed

lemma py_range_down_upto: "py_range_down b (a - 1) = rev [a..b]"
  by (simp add: py_range_down_rev)

lemma enumerate_upto: "enumerate n [a..b] = map (\<lambda>x. (n + nat (x - a), x)) [a..b]"
  by (rule nth_equalityI) (simp_all add: nth_enumerate_eq)

lemma enumerate_rev_upto: "enumerate n (rev [a..b]) = map (\<lambda>x. (n + nat (b - x), x)) (rev [a..b])"
  by (rule nth_equalityI) (simp_all add: nth_enumerate_eq rev_nth)

lemma phase1_steps:
  "total' \<noteq> 0 \<Longrightarrow> march_c_phase1 link total' (i, a) st = for_each (exec_step link) [Write a 0x0000] st"
  by (cases st) (simp add: march_c_phase1_def progress_bar_def and_then_def split: sum.splits prod.splits)

lemma phase2_steps:
  "total' \<noteq> 0 \<Longrightarrow> march_c_phase2 link total' (i, a) st
     = for_each (exec_step link) [Read ''Phase2'' a 0x0000, Write a 0xFFFF] st"
  by (cases st) (simp add: march_c_phase2_def progress_bar_def and_then_def Let_def split: sum.splits prod.splits)

lemma for_each_append_fun:
  "for_each body (xs @ ys) = (\<lambda>st. and_then (for_each body xs st) (for_each body ys))"
  by (rule ext) (rule for_each_append)

lemma for_each_enumerate:
  assumes "\<And>i a st. body (i, a) st = for_each g (steps a) st"
  shows "for_each body (enumerate n as) st = for_each g (concat (map steps as)) st"
proof -
  have "for_each body (enumerate n as) st
          = for_each g (concat (map (\<lambda>x. steps (snd x)) (enumerate n as))) st"
  proof (rule for_each_concat)
    fix x st
    show "body x st = for_each g (steps (snd x)) st"
      by (cases x) (simp add: assms)
  qed
  also have "map (\<lambda>x. steps (snd x)) (enumerate n as) = map steps (map snd (enumerate n as))"
    by (simp only: map_map comp_def)
  also have "map snd (enumerate n as) = as"
    by (rule map_snd_enumerate)
  finally show ?thesis .
qed


lemma phase3_steps:
  "total' \<noteq> 0 \<Longrightarrow> march_c_phase3 link total' (i, a) st
     = for_each (exec_step link) [Read ''Phase3'' a 0xFFFF, Write a 0x0000] st"
  by (cases st) (simp add: march_c_phase3_def progress_bar_def and_then_def Let_def split: sum.splits prod.splits)

lemma phase4_steps:
  "total' \<noteq> 0 \<Longrightarrow> march_c_phase4 link total' (i, a) st
     = for_each (exec_step link) [Read ''Phase4'' a 0x0000, Write a 0xFFFF] st"
  by (cases st) (simp add: march_c_phase4_def progress_bar_def and_then_def Let_def split: sum.splits prod.splits)

lemma phase5_steps:
  "total' \<noteq> 0 \<Longrightarrow> march_c_phase5 link total' (i, a) st
     = for_each (exec_step link) [Read ''Phase5'' a 0xFFFF, Write a 0x0000] st"
  by (cases st) (simp add: march_c_phase5_def progress_bar_def and_then_def Let_def split: sum.splits prod.splits)

lemma phase6_steps:
  "total' \<noteq> 0 \<Longrightarrow> march_c_phase6 link total' (i, a) st
     = for_each (exec_step link) [Read ''Phase6'' a 0x0000] st"
  by (cases st) (simp add: march_c_phase6_def progress_bar_def and_then_def Let_def split: sum.splits prod.splits)

lemma march_c_test_run_script:
  assumes "start_addr \<le> end_addr"
  shows "march_c_test link uart start_addr end_addr
           = run_script link uart (march_c_script start_addr end_addr)"
proof -
  define total' where "total' = end_addr - start_addr + 1"
  have t: "total' \<noteq> 0"
    using assms by (simp add: total'_def)
  note loops =
    for_each_enumerate [of "march_c_phase1 link total'", OF phase1_steps [OF t]]
    for_each_enumerate [of "march_c_phase2 link total'", OF phase2_steps [OF t]]
    for_each_enumerate [of "march_c_phase3 link total'", OF phase3_steps [OF t]]
    for_each_enumerate [of "march_c_phase4 link total'", OF phase4_steps [OF t]]
    for_each_enumerate [of "march_c_phase5 link total'", OF phase5_steps [OF t]]
    for_each_enumerate [of "march_c_phase6 link total'", OF phase6_steps [OF t]]
  show ?thesis
    unfolding march_c_test_def run_script_def march_c_script_def Let_def total'_def [symmetric]
      py_range_upto py_range_down_upto loops
    using t
    by (simp add: progress_bar_def for_each_append_fun and_then_assoc
        cong: if_cong)
qed

lemma for_each_map:
  assumes "\<And>x st. x \<in> set xs \<Longrightarrow> body x st = exec_step link (f x) st"
  shows "for_each body xs st = for_each (exec_step link) (map f xs) st"
  using assms
proof (induction xs arbitrary: st)
  case Nil
  show ?case by simp
next
  case (Cons x xs)
  have ih: "for_each body xs = for_each (exec_step link) (map f xs)"
    by (rule ext) (rule Cons.IH, simp add: Cons.prems)
  have "body x st = exec_step link (f x) st"
    by (simp add: Cons.prems)
  then show ?case
    by (simp add: ih)
qed

lemma walking_ones_patterns:
  "map (\<lambda>i. push_bit i (1::int)) [0..<16] = map (\<lambda>i. 2 ^ i) [0..<16]"
  by simp

lemma low_16_bits: "(x::int) AND 0xFFFF = x mod 65536"
proof -
  have "x AND mask 16 = x mod 2 ^ 16"
    by (simp only: take_bit_eq_mask [symmetric] take_bit_eq_mod)
  then show ?thesis
    by (simp add: mask_eq_exp_minus_1)
qed


lemma walking_zeros_patterns:
  "map (\<lambda>i. (NOT (push_bit i (1::int))) AND 0xFFFF) [0..<16]
     = map (\<lambda>i. (NOT (2 ^ i)) AND 0xFFFF) [0..<16]"
  by simp

lemma run_script_append:
  "and_then (for_each (exec_step link) xs st) (for_each (exec_step link) ys)
     = for_each (exec_step link) (xs @ ys) st"
  by (simp add: for_each_append)

lemma walking_ones_test_run_script:
  "walking_ones_test link uart start_addr count = run_script link uart (walking_ones_script start_addr)"
proof -
  let ?w = "\<lambda>(i, pattern). \<lambda>(uart, errors).
               and_then (write_mram link uart (start_addr + int i) pattern)
                 (\<lambda>(_, uart). Inr (uart, errors :: fault list))"
  let ?r = "\<lambda>(i, pattern). \<lambda>(uart, errors).
               and_then (read_mram link uart (start_addr + int i)) (\<lambda>(data, uart).
               Inr (uart, if data \<noteq> pattern
                          then errors @ [(start_addr + int i, ''Walking1s'', pattern, data)]
                          else errors))"
  let ?ps = "map (\<lambda>i. (i, (2::int) ^ i)) [0..<16]"
  have ps: "enumerate 0 (map (\<lambda>i. push_bit i (1::int)) [0..<16]) = ?ps"
    by (simp only: walking_ones_patterns enumerate_map_upt)
  have "for_each ?w ?ps st
          = for_each (exec_step link) (map (\<lambda>(i, p). Write (start_addr + int i) p) ?ps) st" for st
    by (rule for_each_map) auto
  then have w: "for_each ?w ?ps st
          = for_each (exec_step link) (map (\<lambda>i. Write (start_addr + int i) (2 ^ i)) [0..<16]) st" for st
    by (simp only: map_map comp_def prod.case)
  have "for_each ?r ?ps st
          = for_each (exec_step link)
              (map (\<lambda>(i, p). Read ''Walking1s'' (start_addr + int i) p) ?ps) st" for st
    by (rule for_each_map) auto
  then have r: "for_each ?r ?ps st
          = for_each (exec_step link)
              (map (\<lambda>i. Read ''Walking1s'' (start_addr + int i) (2 ^ i)) [0..<16]) st" for st
    by (simp only: map_map comp_def prod.case)
  show ?thesis
    unfolding walking_ones_test_def run_script_def walking_ones_script_def Let_def ps w r
    by (simp add: for_each_append and_then_assoc)
qed

lemma walking_zeros_test_run_script:
  "walking_zeros_test link uart start_addr count = run_script link uart (walking_zeros_script start_addr)"
proof -
  let ?w = "\<lambda>(i, pattern). \<lambda>(uart, errors).
               and_then (write_mram link uart (start_addr + int i) pattern)
                 (\<lambda>(_, uart). Inr (uart, errors :: fault list))"
  let ?r = "\<lambda>(i, pattern). \<lambda>(uart, errors).
               and_then (read_mram link uart (start_addr + int i)) (\<lambda>(data, uart).
               Inr (uart, if data \<noteq> pattern
                          then errors @ [(start_addr + int i, ''Walking0s'', pattern, data)]
                          else errors))"
  let ?ps = "map (\<lambda>i. (i, (NOT ((2::int) ^ i)) AND 0xFFFF)) [0..<16]"
  have ps: "enumerate 0 (map (\<lambda>i. (NOT (push_bit i (1::int))) AND 0xFFFF) [0..<16]) = ?ps"
    by (simp only: walking_zeros_patterns enumerate_map_upt)
  have "for_each ?w ?ps st
          = for_each (exec_step link) (map (\<lambda>(i, p). Write (start_addr + int i) p) ?ps) st" for st
    by (rule for_each_map) auto
  then have w: "for_each ?w ?ps st
          = for_each (exec_step link)
              (map (\<lambda>i. Write (start_addr + int i) ((NOT (2 ^ i)) AND 0xFFFF)) [0..<16]) st" for st
    by (simp only: map_map comp_def prod.case)
  have "for_each ?r ?ps st
          = for_each (exec_step link)
              (map (\<lambda>(i, p). Read ''Walking0s'' (start_addr + int i) p) ?ps) st" for st
    by (rule for_each_map) auto
  then have r: "for_each ?r ?ps st
          = for_each (exec_step link)
              (map (\<lambda>i. Read ''Walking0s'' (start_addr + int i) ((NOT (2 ^ i)) AND 0xFFFF)) [0..<16]) st" for st
    by (simp only: map_map comp_def prod.case)
  show ?thesis
    unfolding walking_zeros_test_def run_script_def walking_zeros_script_def Let_def ps w r
    by (simp add: for_each_append and_then_assoc)
qed


lemma for_each_enumerate_upto:
  assumes "\<And>i a st. body (i, a) st = exec_step link (g i a) st"
  shows "for_each body (enumerate 0 [s..e]) st
           = for_each (exec_step link) (map (\<lambda>a. g (nat (a - s)) a) [s..e]) st"
proof -
  have "for_each body (enumerate 0 [s..e]) st
          = for_each (exec_step link) (map (\<lambda>(i, a). g i a) (enumerate 0 [s..e])) st"
    by (rule for_each_map) (auto simp add: assms)
  also have "map (\<lambda>(i, a). g i a) (enumerate 0 [s..e]) = map (\<lambda>a. g (nat (a - s)) a) [s..e]"
    by (simp add: enumerate_upto comp_def)
  finally show ?thesis .
qed

lemma index_parity:
  assumes "s \<le> a"
  shows "(nat (a - s) mod 2 = 0) = (a mod 2 = s mod 2)"
proof -
  have "even (nat (a - s)) = even (a - s)"
    using assms by (simp add: even_nat_iff)
  also have "\<dots> = (a mod 2 = s mod 2)"
    by presburger
  finally show ?thesis
    by (simp add: even_iff_mod_2_eq_zero)
qed

lemma checker_index:
  "map (\<lambda>a. f a (if nat (a - s) mod 2 = 0 then x else y)) [s..e]
     = map (\<lambda>a. f a (if a mod 2 = s mod 2 then x else y)) [s..e]"
  by (rule map_cong) (simp_all add: index_parity)

lemma checkerboard_write_step:
  "total' \<noteq> 0 \<Longrightarrow> checkerboard_write link total' (i, a) st
     = exec_step link (Write a (if i mod 2 = 0 then 0xAAAA else 0x5555)) st"
  by (cases st) (simp add: checkerboard_write_def progress_bar_def and_then_def Let_def
      split: sum.splits prod.splits)

lemma checkerboard_verify_step:
  "total' \<noteq> 0 \<Longrightarrow> checkerboard_verify link total' (i, a) st
     = exec_step link (Read ''Checkerboard'' a (if i mod 2 = 0 then 0xAAAA else 0x5555)) st"
  by (cases st) (simp add: checkerboard_verify_def progress_bar_def and_then_def Let_def
      split: sum.splits prod.splits)

lemma checkerboard_write_inverse_step:
  "total' \<noteq> 0 \<Longrightarrow> checkerboard_write_inverse link total' (i, a) st
     = exec_step link (Write a (if i mod 2 = 0 then 0x5555 else 0xAAAA)) st"
  by (cases st) (simp add: checkerboard_write_inverse_def progress_bar_def and_then_def Let_def
      split: sum.splits prod.splits)

lemma checkerboard_verify_inverse_step:
  "total' \<noteq> 0 \<Longrightarrow> checkerboard_verify_inverse link total' (i, a) st
     = exec_step link (Read ''InvCheckerboard'' a (if i mod 2 = 0 then 0x5555 else 0xAAAA)) st"
  by (cases st) (simp add: checkerboard_verify_inverse_def progress_bar_def and_then_def Let_def
      split: sum.splits prod.splits)

lemma checkerboard_test_run_script:
  assumes "start_addr \<le> end_addr"
  shows "checkerboard_test link uart start_addr end_addr
           = run_script link uart (checkerboard_script start_addr end_addr)"
proof -
  define total' where "total' = end_addr - start_addr + 1"
  have t: "total' \<noteq> 0"
    using assms by (simp add: total'_def)
  note loops =
    for_each_enumerate_upto [of "checkerboard_write link total'", OF checkerboard_write_step [OF t]]
    for_each_enumerate_upto [of "checkerboard_verify link total'", OF checkerboard_verify_step [OF t]]
    for_each_enumerate_upto [of "checkerboard_write_inverse link total'",
      OF checkerboard_write_inverse_step [OF t]]
    for_each_enumerate_upto [of "checkerboard_verify_inverse link total'",
      OF checkerboard_verify_inverse_step [OF t]]
  show ?thesis
    unfolding checkerboard_test_def run_script_def checkerboard_script_def Let_def
      total'_def [symmetric] py_range_upto loops checker_index checker_def inverse_checker_def
    using t
    by (simp add: progress_bar_def for_each_append_fun and_then_assoc cong: if_cong)
qed

lemma address_uniqueness_write_step:
  "total' \<noteq> 0 \<Longrightarrow> address_uniqueness_write link total' (i, a) st
     = exec_step link (Write a (a mod 65536)) st"
  by (cases st) (simp add: address_uniqueness_write_def progress_bar_def and_then_def Let_def
      low_16_bits split: sum.splits prod.splits)

lemma address_uniqueness_verify_step:
  "total' \<noteq> 0 \<Longrightarrow> address_uniqueness_verify link total' (i, a) st
     = exec_step link (Read ''AddressUnique'' a (a mod 65536)) st"
  by (cases st) (simp add: address_uniqueness_verify_def progress_bar_def and_then_def Let_def
      low_16_bits split: sum.splits prod.splits)

lemma address_uniqueness_test_run_script:
  assumes "start_addr \<le> end_addr"
  shows "address_uniqueness_test link uart start_addr end_addr
           = run_script link uart (address_uniqueness_script start_addr end_addr)"
proof -
  define total' where "total' = end_addr - start_addr + 1"
  have t: "total' \<noteq> 0"
    using assms by (simp add: total'_def)
  note loops =
    for_each_enumerate_upto [of "address_uniqueness_write link total'",
      OF address_uniqueness_write_step [OF t]]
    for_each_enumerate_upto [of "address_uniqueness_verify link total'",
      OF address_uniqueness_verify_step [OF t]]
  show ?thesis
    unfolding address_uniqueness_test_def run_script_def address_uniqueness_script_def Let_def
      total'_def [symmetric] py_range_upto loops
    using t
    by (simp add: progress_bar_def for_each_append_fun and_then_assoc cong: if_cong)
qed

section \<open>Running a script to its end\<close>



lemma exec_observations:
  "for_each (exec_step link) script (uart, errs)
     = and_then (observations link script uart)
         (\<lambda>(obs, uart'). Inr (uart', errs @ faults_of script obs))"
proof (induction script arbitrary: uart errs)
  case Nil
  show ?case by simp
next
  case (Cons x script)
  show ?case
  proof (cases x)
    case (Write a w)
    then show ?thesis
      by (cases "write_mram link uart a w") (auto simp add: Cons.IH)
  next
    case (Read n a e)
    show ?thesis
    proof (cases "read_mram link uart a")
      case (Inl err)
      with Read show ?thesis by simp
    next
      case (Inr r)
      obtain d u where r: "r = (d, u)" by (cases r)
      show ?thesis
        by (cases "observations link script u")
           (auto simp add: Read Inr r Cons.IH)
    qed
  qed
qed

lemma run_script_observations:
  "run_script link uart script
     = and_then (observations link script uart)
         (\<lambda>(obs, uart'). Inr ((faults_of script obs = [], faults_of script obs), uart'))"
  unfolding run_script_def exec_observations
  by (cases "observations link script uart") auto

lemma write_mram_ok:
  assumes "link (device s) (write_mram_cmd a w) \<noteq> None"
  shows "\<exists>s'. write_mram link s a w = Inr (True, s') \<and> sent s' = sent s @ [write_mram_cmd a w]"
  using assms by (auto simp add: write_mram_eq)

lemma read_mram_ok:
  assumes "link (device s) (read_mram_cmd a) \<noteq> None"
  shows "\<exists>data s'. read_mram link s a = Inr (data, s') \<and> sent s' = sent s @ [read_mram_cmd a]"
  using assms read_mram_sent [of link s a] by (cases "read_mram link s a") auto

lemma observations_total:
  assumes "\<forall>d c. link d c \<noteq> None"
  shows "\<exists>obs uart'. observations link script uart = Inr (obs, uart')
            \<and> length obs = length (filter is_read script)
            \<and> sent uart' = sent uart @ map step_cmd script"
proof (induction script arbitrary: uart)
  case Nil
  show ?case by simp
next
  case (Cons x script)
  show ?case
  proof (cases x)
    case (Write a w)
    from assms obtain s' where w: "write_mram link uart a w = Inr (True, s')"
        "sent s' = sent uart @ [write_mram_cmd a w]"
      using write_mram_ok [of link uart a w] by auto
    from Cons.IH [of s'] obtain obs u where
      "observations link script s' = Inr (obs, u)" "length obs = length (filter is_read script)"
      "sent u = sent s' @ map step_cmd script"
      by auto
    with w Write show ?thesis by simp
  next
    case (Read n a e)
    from assms obtain data s' where r: "read_mram link uart a = Inr (data, s')"
        "sent s' = sent uart @ [read_mram_cmd a]"
      using read_mram_ok [of link uart a] by auto
    from Cons.IH [of s'] obtain obs u where
      "observations link script s' = Inr (obs, u)" "length obs = length (filter is_read script)"
      "sent u = sent s' @ map step_cmd script"
      by auto
    with r Read show ?thesis by simp
  qed
qed

lemma write_mram_Inl:
  "write_mram link s a w = Inl e \<Longrightarrow> e = SerialException \<and> link (device s) (write_mram_cmd a w) = None"
  by (auto simp add: write_mram_eq split: option.splits)

lemma read_mram_Inl:
  "read_mram link s a = Inl e \<Longrightarrow> e = SerialException \<and> link (device s) (read_mram_cmd a) = None"
  using read_mram_sent [of link s a] by simp

lemma observations_Inl:
  "observations link script uart = Inl e \<Longrightarrow> e = SerialException \<and> (\<exists>d c. link d c = None)"
proof (induction script arbitrary: uart)
  case Nil
  then show ?case by simp
next
  case (Cons x script)
  show ?case
  proof (cases x)
    case (Write a w)
    show ?thesis
    proof (cases "write_mram link uart a w")
      case (Inl err)
      with Cons.prems Write write_mram_Inl [of link uart a w err] show ?thesis
        by auto
    next
      case (Inr r)
      with Cons.prems Write Cons.IH [of "snd r"] show ?thesis
        by (auto split: prod.splits)
    qed
  next
    case (Read n a ex)
    show ?thesis
    proof (cases "read_mram link uart a")
      case (Inl err)
      with Cons.prems Read read_mram_Inl [of link uart a err] show ?thesis
        by auto
    next
      case (Inr r)
      with Cons.prems Read Cons.IH [of "snd r"] show ?thesis
        by (cases "observations link script (snd r)") (auto split: prod.splits)
    qed
  qed
qed

lemma run_script_complete:
  assumes "\<forall>d c. link d c \<noteq> None"
  shows "\<exists>obs uart'. observations link script uart = Inr (obs, uart')
            \<and> length obs = length (filter is_read script)
            \<and> sent uart' = sent uart @ map step_cmd script
            \<and> run_script link uart script
                 = Inr ((faults_of script obs = [], faults_of script obs), uart')"
  using observations_total [OF assms, of script uart]
  by (auto simp add: run_script_observations)

lemma run_script_Inl:
  "run_script link uart script = Inl e \<Longrightarrow> e = SerialException \<and> (\<exists>d c. link d c = None)"
  using observations_Inl [of link script uart e]
  by (cases "observations link script uart") (auto simp add: run_script_observations)

section \<open>March C\<close>

lemma descending_range:
  "sorted_wrt (>) (py_range_down b (a - 1)) \<and> set (py_range_down b (a - 1)) = {a..b}"
  by (simp add: py_range_down_upto sorted_wrt_rev)

text \<open>
  Claim C1. For \<open>start \<le> end\<close>, one run of March C is the run of six phases in this
  order: ascending, write \<open>0x0000\<close> everywhere; ascending, read expecting \<open>0x0000\<close> then
  write \<open>0xFFFF\<close>; ascending, read expecting \<open>0xFFFF\<close> then write \<open>0x0000\<close>; descending,
  read expecting \<open>0x0000\<close> then write \<open>0xFFFF\<close>; descending, read expecting \<open>0xFFFF\<close>
  then write \<open>0x0000\<close>; ascending, read expecting \<open>0x0000\<close>. The ascending order is
  strictly increasing, the descending one strictly decreasing over the same addresses.
  The faults returned are those of the script: one record, with the name of its phase, for
  each read whose value is not the expected one, in the order of the reads.
\<close>

theorem march_c_six_phases:
  assumes "start_addr \<le> end_addr"
  shows "march_c_test link uart start_addr end_addr =
           run_script link uart
             (map (\<lambda>a. Write a 0x0000) [start_addr..end_addr]
            @ concat (map (\<lambda>a. [Read ''Phase2'' a 0x0000, Write a 0xFFFF]) [start_addr..end_addr])
            @ concat (map (\<lambda>a. [Read ''Phase3'' a 0xFFFF, Write a 0x0000]) [start_addr..end_addr])
            @ concat (map (\<lambda>a. [Read ''Phase4'' a 0x0000, Write a 0xFFFF])
                        (py_range_down end_addr (start_addr - 1)))
            @ concat (map (\<lambda>a. [Read ''Phase5'' a 0xFFFF, Write a 0x0000])
                        (py_range_down end_addr (start_addr - 1)))
            @ map (\<lambda>a. Read ''Phase6'' a 0x0000) [start_addr..end_addr])
       \<and> sorted_wrt (<) [start_addr..end_addr]
       \<and> sorted_wrt (>) (py_range_down end_addr (start_addr - 1))
       \<and> set (py_range_down end_addr (start_addr - 1)) = {start_addr..end_addr}
       \<and> march_c_test link uart start_addr end_addr =
           and_then (observations link (march_c_script start_addr end_addr) uart)
             (\<lambda>(obs, uart').
                Inr ((faults_of (march_c_script start_addr end_addr) obs = [],
                      faults_of (march_c_script start_addr end_addr) obs), uart'))"
proof -
  have "march_c_test link uart start_addr end_addr
          = run_script link uart (march_c_script start_addr end_addr)"
    using assms by (rule march_c_test_run_script)
  then show ?thesis
    using descending_range [of end_addr start_addr]
    by (simp add: march_c_script_def py_range_down_upto run_script_observations [symmetric])
qed

lemma silent_run:
  "run_script silent_link (open_port ()) (march_c_script 0x10 0x11) =
     Inr ((False,
           [(0x10, ''Phase2'', 0x0000, 0xDEAD), (0x11, ''Phase2'', 0x0000, 0xDEAD),
            (0x10, ''Phase3'', 0xFFFF, 0xDEAD), (0x11, ''Phase3'', 0xFFFF, 0xDEAD),
            (0x11, ''Phase4'', 0x0000, 0xDEAD), (0x10, ''Phase4'', 0x0000, 0xDEAD),
            (0x11, ''Phase5'', 0xFFFF, 0xDEAD), (0x10, ''Phase5'', 0xFFFF, 0xDEAD),
            (0x10, ''Phase6'', 0x0000, 0xDEAD), (0x11, ''Phase6'', 0x0000, 0xDEAD)]),
          \<lparr>device = (), in_buffer = [],
           sent = [[0x57, 0, 0, 0x10, 0, 0], [0x57, 0, 0, 0x11, 0, 0],
                   [0x52, 0, 0, 0x10], [0x57, 0, 0, 0x10, 0xFF, 0xFF],
                   [0x52, 0, 0, 0x11], [0x57, 0, 0, 0x11, 0xFF, 0xFF],
                   [0x52, 0, 0, 0x10], [0x57, 0, 0, 0x10, 0, 0],
                   [0x52, 0, 0, 0x11], [0x57, 0, 0, 0x11, 0, 0],
                   [0x52, 0, 0, 0x11], [0x57, 0, 0, 0x11, 0xFF, 0xFF],
                   [0x52, 0, 0, 0x10], [0x57, 0, 0, 0x10, 0xFF, 0xFF],
                   [0x52, 0, 0, 0x11], [0x57, 0, 0, 0x11, 0, 0],
                   [0x52, 0, 0, 0x10], [0x57, 0, 0, 0x10, 0, 0],
                   [0x52, 0, 0, 0x10], [0x52, 0, 0, 0x11]]\<rparr>)"
  by code_simp

theorem march_c_six_phases_witness:
  "(0x10::int) \<le> 0x11
   \<and> march_c_test silent_link (open_port ()) 0x10 0x11 =
     Inr ((False,
           [(0x10, ''Phase2'', 0x0000, 0xDEAD), (0x11, ''Phase2'', 0x0000, 0xDEAD),
            (0x10, ''Phase3'', 0xFFFF, 0xDEAD), (0x11, ''Phase3'', 0xFFFF, 0xDEAD),
            (0x11, ''Phase4'', 0x0000, 0xDEAD), (0x10, ''Phase4'', 0x0000, 0xDEAD),
            (0x11, ''Phase5'', 0xFFFF, 0xDEAD), (0x10, ''Phase5'', 0xFFFF, 0xDEAD),
            (0x10, ''Phase6'', 0x0000, 0xDEAD), (0x11, ''Phase6'', 0x0000, 0xDEAD)]),
          \<lparr>device = (), in_buffer = [],
           sent = [[0x57, 0, 0, 0x10, 0, 0], [0x57, 0, 0, 0x11, 0, 0],
                   [0x52, 0, 0, 0x10], [0x57, 0, 0, 0x10, 0xFF, 0xFF],
                   [0x52, 0, 0, 0x11], [0x57, 0, 0, 0x11, 0xFF, 0xFF],
                   [0x52, 0, 0, 0x10], [0x57, 0, 0, 0x10, 0, 0],
                   [0x52, 0, 0, 0x11], [0x57, 0, 0, 0x11, 0, 0],
                   [0x52, 0, 0, 0x11], [0x57, 0, 0, 0x11, 0xFF, 0xFF],
                   [0x52, 0, 0, 0x10], [0x57, 0, 0, 0x10, 0xFF, 0xFF],
                   [0x52, 0, 0, 0x11], [0x57, 0, 0, 0x11, 0, 0],
                   [0x52, 0, 0, 0x10], [0x57, 0, 0, 0x10, 0, 0],
                   [0x52, 0, 0, 0x10], [0x52, 0, 0, 0x11]]\<rparr>)"
proof -
  have le: "(0x10::int) \<le> 0x11"
    by simp
  have "march_c_test silent_link (open_port ()) 0x10 0x11
          = run_script silent_link (open_port ()) (march_c_script 0x10 0x11)"
    using march_c_six_phases [OF le, of silent_link "open_port ()", THEN conjunct1]
    by (simp only: march_c_script_def py_range_down_upto)
  then show ?thesis
    by (simp only: silent_run le simp_thms)
qed

section \<open>Walking ones and walking zeros\<close>

lemma ones_list:
  "map (\<lambda>i. push_bit i (1::int)) [0..<16] =
     [0x0001, 0x0002, 0x0004, 0x0008, 0x0010, 0x0020, 0x0040, 0x0080,
      0x0100, 0x0200, 0x0400, 0x0800, 0x1000, 0x2000, 0x4000, 0x8000]"
  by (simp add: upt_rec)

lemma zeros_list:
  "map (\<lambda>i. (NOT (push_bit i (1::int))) AND 0xFFFF) [0..<16] =
     [0xFFFE, 0xFFFD, 0xFFFB, 0xFFF7, 0xFFEF, 0xFFDF, 0xFFBF, 0xFF7F,
      0xFEFF, 0xFDFF, 0xFBFF, 0xF7FF, 0xEFFF, 0xDFFF, 0xBFFF, 0x7FFF]"
  by (simp add: upt_rec)


lemma sixteen_addresses: "map (\<lambda>i. start_addr + int i) [0..<16] = [start_addr..start_addr + 15]"
  by (rule nth_equalityI) simp_all

text \<open>
  Claim C10. The walking tests do not depend on \<open>count\<close>: for the same link, port and start
  address, two values of \<open>count\<close> give the same result, the port with every command sent
  included. Both tests work on the sixteen addresses \<open>start..start + 15\<close>, first all written,
  then all read.
\<close>

theorem walking_count_unused:
  "walking_ones_test link uart start_addr count = walking_ones_test link uart start_addr count'
   \<and> walking_zeros_test link uart start_addr count = walking_zeros_test link uart start_addr count'
   \<and> walking_ones_test link uart start_addr count
        = run_script link uart (walking_ones_script start_addr)
   \<and> walking_zeros_test link uart start_addr count
        = run_script link uart (walking_zeros_script start_addr)
   \<and> map step_addr (walking_ones_script start_addr)
        = [start_addr..start_addr + 15] @ [start_addr..start_addr + 15]
   \<and> map step_addr (walking_zeros_script start_addr)
        = [start_addr..start_addr + 15] @ [start_addr..start_addr + 15]
   \<and> length [start_addr..start_addr + 15] = 16"
proof -
  have a1: "map step_addr (walking_ones_script start_addr)
        = [start_addr..start_addr + 15] @ [start_addr..start_addr + 15]"
    by (simp add: walking_ones_script_def comp_def sixteen_addresses)
  have a0: "map step_addr (walking_zeros_script start_addr)
        = [start_addr..start_addr + 15] @ [start_addr..start_addr + 15]"
    by (simp add: walking_zeros_script_def comp_def sixteen_addresses)
  show ?thesis
    using a1 a0
    by (simp add: walking_ones_test_run_script walking_zeros_test_run_script)
qed

section \<open>Checkerboard\<close>


lemma expected_at_append: "expected_at a (xs @ ys) = expected_at a xs @ expected_at a ys"
proof (induction xs)
  case Nil
  show ?case by simp
next
  case (Cons x xs)
  then show ?case by (cases x) simp_all
qed

lemma expected_at_writes: "expected_at a (map (\<lambda>x. Write x (f x)) as) = []"
  by (induction as) simp_all

lemma expected_at_reads:
  "expected_at a (map (\<lambda>x. Read n x (f x)) as) = map f (filter (\<lambda>x. x = a) as)"
  by (induction as) simp_all

lemma filter_eq_distinct:
  "distinct xs \<Longrightarrow> filter (\<lambda>x. x = a) xs = (if a \<in> set xs then [a] else [])"
proof (induction xs)
  case Nil
  show ?case by simp
next
  case (Cons x xs)
  then show ?case by auto
qed

lemma filter_eq_upto: "filter (\<lambda>x. x = a) [s..e] = (if s \<le> a \<and> a \<le> e then [a] else [])"
  by (simp add: filter_eq_distinct)

text \<open>
  Claim C7. For \<open>start \<le> end\<close>, the first pass of the checkerboard test writes \<open>0xAAAA\<close>
  or \<open>0x5555\<close> to each address by its parity (\<open>0xAAAA\<close> at the addresses of the parity of
  \<open>start\<close>) and then verifies each address against that pattern; the second pass writes
  and verifies the two patterns swapped, by the same parity. So the script reads every
  address of the range exactly twice, once expecting \<open>0xAAAA\<close> and once expecting \<open>0x5555\<close>,
  and reads no other address.
\<close>

theorem checkerboard_two_passes:
  assumes "start_addr \<le> end_addr"
  shows "checkerboard_test link uart start_addr end_addr =
           run_script link uart
             (map (\<lambda>a. Write a (if a mod 2 = start_addr mod 2 then 0xAAAA else 0x5555))
                  [start_addr..end_addr]
            @ map (\<lambda>a. Read ''Checkerboard'' a
                          (if a mod 2 = start_addr mod 2 then 0xAAAA else 0x5555))
                  [start_addr..end_addr]
            @ map (\<lambda>a. Write a (if a mod 2 = start_addr mod 2 then 0x5555 else 0xAAAA))
                  [start_addr..end_addr]
            @ map (\<lambda>a. Read ''InvCheckerboard'' a
                          (if a mod 2 = start_addr mod 2 then 0x5555 else 0xAAAA))
                  [start_addr..end_addr])
       \<and> checkerboard_test link uart start_addr end_addr =
           run_script link uart (checkerboard_script start_addr end_addr)
       \<and> (\<forall>a\<in>{start_addr..end_addr}.
             expected_at a (checkerboard_script start_addr end_addr) =
               (if a mod 2 = start_addr mod 2 then [0xAAAA, 0x5555] else [0x5555, 0xAAAA]))
       \<and> (\<forall>a. a \<notin> {start_addr..end_addr} \<longrightarrow>
             expected_at a (checkerboard_script start_addr end_addr) = [])"
proof -
  have r: "checkerboard_test link uart start_addr end_addr =
           run_script link uart (checkerboard_script start_addr end_addr)"
    using assms by (rule checkerboard_test_run_script)
  have e: "expected_at a (checkerboard_script start_addr end_addr) =
             (if start_addr \<le> a \<and> a \<le> end_addr
              then (if a mod 2 = start_addr mod 2 then [0xAAAA, 0x5555] else [0x5555, 0xAAAA])
              else [])" for a
    by (simp add: checkerboard_script_def expected_at_append expected_at_writes
        expected_at_reads filter_eq_upto checker_def inverse_checker_def)
  show ?thesis
    using r e by (simp add: checkerboard_script_def checker_def inverse_checker_def)
qed

lemma silent_checkerboard:
  "run_script silent_link (open_port ()) (checkerboard_script 5 6) =
     Inr ((False,
           [(5, ''Checkerboard'', 0xAAAA, 0xDEAD), (6, ''Checkerboard'', 0x5555, 0xDEAD),
            (5, ''InvCheckerboard'', 0x5555, 0xDEAD), (6, ''InvCheckerboard'', 0xAAAA, 0xDEAD)]),
          \<lparr>device = (), in_buffer = [],
           sent = [[0x57, 0, 0, 5, 0xAA, 0xAA], [0x57, 0, 0, 6, 0x55, 0x55],
                   [0x52, 0, 0, 5], [0x52, 0, 0, 6],
                   [0x57, 0, 0, 5, 0x55, 0x55], [0x57, 0, 0, 6, 0xAA, 0xAA],
                   [0x52, 0, 0, 5], [0x52, 0, 0, 6]]\<rparr>)"
  by code_simp

theorem checkerboard_two_passes_witness:
  "(5::int) \<le> 6
   \<and> checkerboard_test silent_link (open_port ()) 5 6 =
     Inr ((False,
           [(5, ''Checkerboard'', 0xAAAA, 0xDEAD), (6, ''Checkerboard'', 0x5555, 0xDEAD),
            (5, ''InvCheckerboard'', 0x5555, 0xDEAD), (6, ''InvCheckerboard'', 0xAAAA, 0xDEAD)]),
          \<lparr>device = (), in_buffer = [],
           sent = [[0x57, 0, 0, 5, 0xAA, 0xAA], [0x57, 0, 0, 6, 0x55, 0x55],
                   [0x52, 0, 0, 5], [0x52, 0, 0, 6],
                   [0x57, 0, 0, 5, 0x55, 0x55], [0x57, 0, 0, 6, 0xAA, 0xAA],
                   [0x52, 0, 0, 5], [0x52, 0, 0, 6]]\<rparr>)
   \<and> (6::int) \<in> {5..6}
   \<and> expected_at 6 (checkerboard_script 5 6) = [0x5555, 0xAAAA]
   \<and> (5::int) \<in> {5..6}
   \<and> expected_at 5 (checkerboard_script 5 6) = [0xAAAA, 0x5555]"
proof -
  have le: "(5::int) \<le> 6"
    by simp
  note t = checkerboard_two_passes [OF le, of silent_link "open_port ()"]
  have r: "checkerboard_test silent_link (open_port ()) 5 6
             = run_script silent_link (open_port ()) (checkerboard_script 5 6)"
    by (rule t [THEN conjunct2, THEN conjunct1])
  have e6: "expected_at 6 (checkerboard_script 5 6) = [0x5555, 0xAAAA]"
    using t by simp
  have e5: "expected_at 5 (checkerboard_script 5 6) = [0xAAAA, 0x5555]"
    using t by simp
  show ?thesis
    using r e5 e6 by (simp only: silent_checkerboard) simp
qed


section \<open>Tests that run to the end of their script\<close>

lemma read_mram_link:
  "read_mram link u a =
     (case link (device u) (read_mram_cmd a) of
        None \<Rightarrow> Inl SerialException
      | Some (d', reply) \<Rightarrow>
          (if length reply \<ge> 2
           then Inr ((push_bit 8 (reply ! 0)) OR (reply ! 1),
                     u\<lparr>device := d', in_buffer := drop 2 reply,
                        sent := sent u @ [read_mram_cmd a]\<rparr>)
           else Inr (0xDEAD,
                     u\<lparr>device := d', in_buffer := reply,
                        sent := sent u @ [read_mram_cmd a]\<rparr>)))"
  by (simp add: read_mram_def ser_write_def reset_input_buffer_def Let_def
      split: option.split)

lemma observations_holds:
  assumes "link_holds link script (device uart)"
  shows "\<exists>obs uart'. observations link script uart = Inr (obs, uart')
            \<and> length obs = length (filter is_read script)
            \<and> sent uart' = sent uart @ map step_cmd script"
  using assms
proof (induction script arbitrary: uart)
  case Nil
  show ?case by simp
next
  case (Cons x script)
  from Cons.prems obtain d' reply where
    l: "link (device uart) (step_cmd x) = Some (d', reply)" and h: "link_holds link script d'"
    by (auto split: option.splits)
  show ?case
  proof (cases x)
    case (Write a w)
    let ?u = "uart\<lparr>device := d', in_buffer := [], sent := sent uart @ [write_mram_cmd a w]\<rparr>"
    have w: "write_mram link uart a w = Inr (True, ?u)"
      using l Write by (simp add: write_mram_eq)
    from Cons.IH [of ?u] h obtain obs u where
      "observations link script ?u = Inr (obs, u)" "length obs = length (filter is_read script)"
      "sent u = sent ?u @ map step_cmd script"
      by auto
    with w Write show ?thesis by simp
  next
    case (Read n a e)
    from l Read obtain data u1 where r: "read_mram link uart a = Inr (data, u1)"
        "device u1 = d'" "sent u1 = sent uart @ [read_mram_cmd a]"
      by (cases "length reply \<ge> 2") (simp_all add: read_mram_link)
    from Cons.IH [of u1] h r(2) obtain obs u where
      "observations link script u1 = Inr (obs, u)" "length obs = length (filter is_read script)"
      "sent u = sent u1 @ map step_cmd script"
      by auto
    with r Read show ?thesis by simp
  qed
qed

lemma observations_fails:
  assumes "\<not> link_holds link script (device uart)"
  shows "observations link script uart = Inl SerialException"
  using assms
proof (induction script arbitrary: uart)
  case Nil
  then show ?case by simp
next
  case (Cons x script)
  show ?case
  proof (cases "link (device uart) (step_cmd x)")
    case None
    then show ?thesis
      by (cases x) (simp_all add: write_mram_eq read_mram_link)
  next
    case (Some r)
    obtain d' reply where r: "r = (d', reply)" by (cases r)
    from Cons.prems Some r have h: "\<not> link_holds link script d'"
      by simp
    show ?thesis
    proof (cases x)
      case (Write a w)
      let ?u = "uart\<lparr>device := d', in_buffer := [], sent := sent uart @ [write_mram_cmd a w]\<rparr>"
      have w: "write_mram link uart a w = Inr (True, ?u)"
        using Some r Write by (simp add: write_mram_eq)
      from Cons.IH [of ?u] h have "observations link script ?u = Inl SerialException"
        by simp
      with w Write show ?thesis by simp
    next
      case (Read n a e)
      from Some r Read obtain data u1 where rd: "read_mram link uart a = Inr (data, u1)"
          "device u1 = d'"
        by (cases "length reply \<ge> 2") (simp_all add: read_mram_link)
      from Cons.IH [of u1] h rd(2) have "observations link script u1 = Inl SerialException"
        by simp
      with rd Read show ?thesis by simp
    qed
  qed
qed

lemma run_script_runs_to_end: "runs_to_end link uart script (run_script link uart script)"
proof (cases "link_holds link script (device uart)")
  case True
  from observations_holds [OF True] obtain obs uart' where
    "observations link script uart = Inr (obs, uart')"
    "length obs = length (filter is_read script)"
    "sent uart' = sent uart @ map step_cmd script"
    by blast
  with True show ?thesis
    by (auto simp add: runs_to_end_def run_script_observations)
next
  case False
  with observations_fails [OF False] show ?thesis
    by (simp add: runs_to_end_def run_script_observations)
qed

lemma timeout_not_expected_march:
  "Read n a ex \<in> set (march_c_script start_addr end_addr) \<Longrightarrow> ex \<noteq> 0xDEAD"
  by (auto simp add: march_c_script_def)

lemma timeout_not_expected_checkerboard:
  "Read n a ex \<in> set (checkerboard_script start_addr end_addr) \<Longrightarrow> ex \<noteq> 0xDEAD"
  by (auto simp add: checkerboard_script_def checker_def inverse_checker_def split: if_splits)

lemma timeout_not_pattern:
  "(0xDEAD::int) \<notin> set (map (\<lambda>i. push_bit i 1) [0..<16])"
  "(0xDEAD::int) \<notin> set (map (\<lambda>i. (NOT (push_bit i 1)) AND 0xFFFF) [0..<16])"
  unfolding ones_list zeros_list by simp_all

lemma timeout_not_expected_walking_ones:
  assumes "Read n a ex \<in> set (walking_ones_script start_addr)"
  shows "ex \<noteq> 0xDEAD"
proof -
  from assms have "ex \<in> set (map (\<lambda>i. push_bit i 1) [0..<16])"
    by (auto simp add: walking_ones_script_def)
  with timeout_not_pattern(1) show ?thesis
    by auto
qed

lemma timeout_not_expected_walking_zeros:
  assumes "Read n a ex \<in> set (walking_zeros_script start_addr)"
  shows "ex \<noteq> 0xDEAD"
proof -
  from assms have "ex \<in> set (map (\<lambda>i. (NOT (push_bit i 1)) AND 0xFFFF) [0..<16])"
    by (auto simp add: walking_zeros_script_def)
  with timeout_not_pattern(2) show ?thesis
    by auto
qed

text \<open>
  Over a range with \<open>start \<le> end\<close>, and in the walking tests, a read that returns a wrong
  value never stops the run: each of the five tests runs its script to the end as long as
  the connection holds, and raises pySerial's exception when it does not.
\<close>

lemma tests_run_to_end:
  assumes "start_addr \<le> end_addr"
  shows "runs_to_end link uart (march_c_script start_addr end_addr)
           (march_c_test link uart start_addr end_addr)
       \<and> runs_to_end link uart (checkerboard_script start_addr end_addr)
           (checkerboard_test link uart start_addr end_addr)
       \<and> runs_to_end link uart (address_uniqueness_script start_addr end_addr)
           (address_uniqueness_test link uart start_addr end_addr)
       \<and> runs_to_end link uart (walking_ones_script start_addr)
           (walking_ones_test link uart start_addr count)
       \<and> runs_to_end link uart (walking_zeros_script start_addr)
           (walking_zeros_test link uart start_addr count)"
  by (simp only: march_c_test_run_script [OF assms] checkerboard_test_run_script [OF assms]
      address_uniqueness_test_run_script [OF assms] walking_ones_test_run_script
      walking_zeros_test_run_script run_script_runs_to_end simp_thms)

text \<open>
  In March C, the checkerboard and the walking tests no read expects \<open>0xDEAD\<close>, the value
  of a read that timed out, so there every such read gives a fault record. The
  address-uniqueness test expects \<open>0xDEAD\<close> at every address whose low 16 bits are \<open>0xDEAD\<close>.
\<close>

lemma timeout_always_a_fault:
  assumes "Read n a ex \<in> set (march_c_script start_addr end_addr)
               \<union> set (checkerboard_script start_addr end_addr)
               \<union> set (walking_ones_script start_addr)
               \<union> set (walking_zeros_script start_addr)"
  shows "ex \<noteq> 0xDEAD"
  using assms timeout_not_expected_march timeout_not_expected_checkerboard
    timeout_not_expected_walking_ones timeout_not_expected_walking_zeros
  by blast

lemma address_uniqueness_expects_timeout_value:
  assumes "start_addr \<le> a" "a \<le> end_addr" "a mod 65536 = 0xDEAD"
  shows "Read ''AddressUnique'' a 0xDEAD \<in> set (address_uniqueness_script start_addr end_addr)"
  using assms by (auto simp add: address_uniqueness_script_def)

section \<open>March C on the ideal mock\<close>


lemma ideal_link_write:
  "ideal_link mem (write_mram_cmd a w) = Some (mem(take_bit 18 a := take_bit 16 w), [])"
  by (simp only: ideal_link_def write_mram_cmd_def Let_def list.case reassemble_addr
      simp_thms if_True) (simp only: reassemble_word)

lemma ideal_link_read:
  "ideal_link mem (read_mram_cmd a) =
     Some (mem, [(drop_bit 8 (mem (take_bit 18 a))) AND 0xFF, (mem (take_bit 18 a)) AND 0xFF])"
  by (simp only: ideal_link_def read_mram_cmd_def Let_def list.case reassemble_addr
      simp_thms if_True)

lemma ideal_write_mram:
  "write_mram ideal_link u a w =
     Inr (True, u\<lparr>device := (device u)(take_bit 18 a := take_bit 16 w), in_buffer := [],
                    sent := sent u @ [write_mram_cmd a w]\<rparr>)"
  by (simp add: write_mram_eq ideal_link_write)

lemma ideal_read_mram:
  "read_mram ideal_link u a =
     Inr (take_bit 16 (device u (take_bit 18 a)),
          u\<lparr>device := device u, in_buffer := [], sent := sent u @ [read_mram_cmd a]\<rparr>)"
  using read_mram_reply [of ideal_link u a "device u", OF ideal_link_read]
  by (simp only: reassemble_word)

lemma ideal_write_step:
  assumes "0 \<le> a" "a \<le> 0x3FFFF" "0 \<le> w" "w \<le> 0xFFFF"
  shows "\<exists>u'. exec_step ideal_link (Write a w) (u, fs) = Inr (u', fs)
              \<and> device u' = (device u)(a := w)"
  using assms by (simp add: ideal_write_mram take_bit_int_eq_self)

lemma ideal_read_step:
  assumes "0 \<le> a" "a \<le> 0x3FFFF" "0 \<le> device u a" "device u a \<le> 0xFFFF"
  shows "\<exists>u'. exec_step ideal_link (Read n a (device u a)) (u, fs) = Inr (u', fs)
              \<and> device u' = device u"
  using assms by (simp add: ideal_read_mram take_bit_int_eq_self)

lemma sweep_write:
  assumes "\<forall>a\<in>set as. 0 \<le> a \<and> a \<le> 0x3FFFF" "0 \<le> w" "w \<le> 0xFFFF"
  shows "\<exists>u'. for_each (exec_step ideal_link) (map (\<lambda>a. Write a w) as) (u, fs) = Inr (u', fs)
              \<and> device u' = (\<lambda>x. if x \<in> set as then w else device u x)"
  using assms(1)
proof (induction as arbitrary: u)
  case Nil
  show ?case by simp
next
  case (Cons a as)
  from Cons.prems assms(2,3) obtain u1 where
    1: "exec_step ideal_link (Write a w) (u, fs) = Inr (u1, fs)" "device u1 = (device u)(a := w)"
    using ideal_write_step [of a w u fs] by auto
  from Cons.IH [of u1] Cons.prems obtain u' where
    2: "for_each (exec_step ideal_link) (map (\<lambda>a. Write a w) as) (u1, fs) = Inr (u', fs)"
       "device u' = (\<lambda>x. if x \<in> set as then w else device u1 x)"
    by auto
  have "device u' = (\<lambda>x. if x \<in> set (a # as) then w else device u x)"
    using 1(2) 2(2) by auto
  with 1(1) 2(1) show ?case
    by simp
qed

lemma sweep_read_write:
  assumes "\<forall>a\<in>set as. 0 \<le> a \<and> a \<le> 0x3FFFF" "distinct as"
    and "0 \<le> e" "e \<le> 0xFFFF" "0 \<le> w" "w \<le> 0xFFFF"
    and "\<forall>a\<in>set as. device u a = e"
  shows "\<exists>u'. for_each (exec_step ideal_link)
                 (concat (map (\<lambda>a. [Read n a e, Write a w]) as)) (u, fs) = Inr (u', fs)
              \<and> device u' = (\<lambda>x. if x \<in> set as then w else device u x)"
  using assms(1,2,7)
proof (induction as arbitrary: u)
  case Nil
  show ?case by simp
next
  case (Cons a as)
  have e: "device u a = e"
    using Cons.prems by simp
  from Cons.prems assms(3,4) e obtain u0 where
    0: "exec_step ideal_link (Read n a e) (u, fs) = Inr (u0, fs)" "device u0 = device u"
    using ideal_read_step [of a u n fs] by auto
  from Cons.prems assms(5,6) obtain u1 where
    1: "exec_step ideal_link (Write a w) (u0, fs) = Inr (u1, fs)" "device u1 = (device u0)(a := w)"
    using ideal_write_step [of a w u0 fs] by auto
  have "\<forall>b\<in>set as. device u1 b = e"
    using Cons.prems 0(2) 1(2) by auto
  with Cons.IH [of u1] Cons.prems obtain u' where
    2: "for_each (exec_step ideal_link)
          (concat (map (\<lambda>a. [Read n a e, Write a w]) as)) (u1, fs) = Inr (u', fs)"
       "device u' = (\<lambda>x. if x \<in> set as then w else device u1 x)"
    by auto
  have "device u' = (\<lambda>x. if x \<in> set (a # as) then w else device u x)"
    using 0(2) 1(2) 2(2) by auto
  with 0(1) 1(1) 2(1) show ?case
    by simp
qed

lemma sweep_read:
  assumes "\<forall>a\<in>set as. 0 \<le> a \<and> a \<le> 0x3FFFF"
    and "0 \<le> e" "e \<le> 0xFFFF"
    and "\<forall>a\<in>set as. device u a = e"
  shows "\<exists>u'. for_each (exec_step ideal_link) (map (\<lambda>a. Read n a e) as) (u, fs) = Inr (u', fs)
              \<and> device u' = device u"
  using assms(1,4)
proof (induction as arbitrary: u)
  case Nil
  show ?case by simp
next
  case (Cons a as)
  have e: "device u a = e"
    using Cons.prems by simp
  from Cons.prems assms(2,3) e obtain u0 where
    0: "exec_step ideal_link (Read n a e) (u, fs) = Inr (u0, fs)" "device u0 = device u"
    using ideal_read_step [of a u n fs] by auto
  from Cons.IH [of u0] Cons.prems 0(2) obtain u' where
    "for_each (exec_step ideal_link) (map (\<lambda>a. Read n a e) as) (u0, fs) = Inr (u', fs)"
    "device u' = device u0"
    by auto
  with 0 show ?case
    by simp
qed


lemma ideal_march_c_script:
  assumes "0 \<le> start_addr" "start_addr \<le> end_addr" "end_addr \<le> 0x3FFFF"
  shows "\<exists>uart'. run_script ideal_link uart (march_c_script start_addr end_addr)
                     = Inr ((True, []), uart')
               \<and> device uart' = (\<lambda>x. if x \<in> {start_addr..end_addr} then 0x0000 else device uart x)"
proof -
  let ?S = "[start_addr..end_addr]"
  let ?run = "for_each (exec_step ideal_link)"
  have v: "\<forall>a\<in>set ?S. 0 \<le> a \<and> a \<le> 0x3FFFF"
    using assms by auto
  have vr: "\<forall>a\<in>set (rev ?S). 0 \<le> a \<and> a \<le> 0x3FFFF"
    using assms by auto
  obtain u1 where 1: "?run (map (\<lambda>a. Write a 0x0000) ?S) (uart, []) = Inr (u1, [])"
      "device u1 = (\<lambda>x. if x \<in> set ?S then 0x0000 else device uart x)"
    using sweep_write [OF v, of "0x0000" uart "[]"] by auto
  have "\<forall>a\<in>set ?S. device u1 a = 0x0000"
    using 1(2) by simp
  then obtain u2 where 2:
      "?run (concat (map (\<lambda>a. [Read ''Phase2'' a 0x0000, Write a 0xFFFF]) ?S)) (u1, []) = Inr (u2, [])"
      "device u2 = (\<lambda>x. if x \<in> set ?S then 0xFFFF else device u1 x)"
    using sweep_read_write [OF v, of "0x0000" "0xFFFF" u1 "''Phase2''" "[]"] by auto
  have "\<forall>a\<in>set ?S. device u2 a = 0xFFFF"
    using 2(2) by simp
  then obtain u3 where 3:
      "?run (concat (map (\<lambda>a. [Read ''Phase3'' a 0xFFFF, Write a 0x0000]) ?S)) (u2, []) = Inr (u3, [])"
      "device u3 = (\<lambda>x. if x \<in> set ?S then 0x0000 else device u2 x)"
    using sweep_read_write [OF v, of "0xFFFF" "0x0000" u2 "''Phase3''" "[]"] by auto
  have "\<forall>a\<in>set (rev ?S). device u3 a = 0x0000"
    using 3(2) by simp
  then obtain u4 where 4:
      "?run (concat (map (\<lambda>a. [Read ''Phase4'' a 0x0000, Write a 0xFFFF]) (rev ?S))) (u3, [])
         = Inr (u4, [])"
      "device u4 = (\<lambda>x. if x \<in> set (rev ?S) then 0xFFFF else device u3 x)"
    using sweep_read_write [OF vr, of "0x0000" "0xFFFF" u3 "''Phase4''" "[]"] by auto
  have "\<forall>a\<in>set (rev ?S). device u4 a = 0xFFFF"
    using 4(2) by simp
  then obtain u5 where 5:
      "?run (concat (map (\<lambda>a. [Read ''Phase5'' a 0xFFFF, Write a 0x0000]) (rev ?S))) (u4, [])
         = Inr (u5, [])"
      "device u5 = (\<lambda>x. if x \<in> set (rev ?S) then 0x0000 else device u4 x)"
    using sweep_read_write [OF vr, of "0xFFFF" "0x0000" u4 "''Phase5''" "[]"] by auto
  have "\<forall>a\<in>set ?S. device u5 a = 0x0000"
    using 5(2) by simp
  then obtain u6 where 6:
      "?run (map (\<lambda>a. Read ''Phase6'' a 0x0000) ?S) (u5, []) = Inr (u6, [])"
      "device u6 = device u5"
    using sweep_read [OF v, of "0x0000" u5 "''Phase6''" "[]"] by auto
  have r: "run_script ideal_link uart (march_c_script start_addr end_addr) = Inr ((True, []), u6)"
    unfolding run_script_def march_c_script_def
    by (simp only: for_each_append 1(1) 2(1) 3(1) 4(1) 5(1) 6(1) and_then_Inr prod.case simp_thms)
  have d: "device u6 = (\<lambda>x. if x \<in> {start_addr..end_addr} then 0x0000 else device uart x)"
    unfolding 6(2) 5(2) 4(2) 3(2) 2(2) 1(2) by auto
  from r d show ?thesis
    by blast
qed

text \<open>
  Claim C2. On the ideal mock transport, whose read of an address returns the word last
  written there and \<open>0x0000\<close> where nothing was written, March C over a non-empty range
  \<open>[start, end]\<close> of addresses (\<open>0 \<le> start \<le> end \<le> 0x3FFFF\<close>) returns no fault: the boolean
  is true and the list empty, from any state of the port and of the memory. The run leaves
  \<open>0x0000\<close> at every address of the range and the rest of the memory as it was.
\<close>

theorem march_c_ideal_no_faults:
  assumes "0 \<le> start_addr" and "start_addr \<le> end_addr" and "end_addr \<le> 0x3FFFF"
  shows "\<exists>uart'. march_c_test ideal_link uart start_addr end_addr = Inr ((True, []), uart')
               \<and> device uart' = (\<lambda>a. if a \<in> {start_addr..end_addr} then 0x0000 else device uart a)"
  using ideal_march_c_script [OF assms, of uart]
  by (simp only: march_c_test_run_script [OF assms(2)])

theorem march_c_ideal_no_faults_witness:
  "(0::int) \<le> 0x3FFF0 \<and> (0x3FFF0::int) \<le> 0x3FFFF \<and> (0x3FFFF::int) \<le> 0x3FFFF
   \<and> (\<exists>uart'. march_c_test ideal_link (open_port blank_memory) 0x3FFF0 0x3FFFF
                   = Inr ((True, []), uart')
              \<and> device uart' = blank_memory)"
proof -
  have h: "(0::int) \<le> 0x3FFF0" "(0x3FFF0::int) \<le> 0x3FFFF" "(0x3FFFF::int) \<le> 0x3FFFF"
    by simp_all
  have "(\<lambda>a. if a \<in> {0x3FFF0..0x3FFFF} then 0x0000 else device (open_port blank_memory) a)
          = blank_memory"
    by (rule ext) (simp add: open_port_def blank_memory_def)
  with march_c_ideal_no_faults [OF h, of "open_port blank_memory"] h show ?thesis
    by simp
qed

section \<open>Ranges without addresses\<close>

text \<open>
  The theorems about ranges above are stated for \<open>start \<le> end\<close>. When \<open>end = start - 1\<close>
  the first loop of a test over the range runs over no address and the call of
  \<^verbatim>\<open>progress_bar\<close> after it divides by \<^verbatim>\<open>total\<close>, which is \<open>0\<close>; a range still further
  inverted gives no command and no fault.
\<close>

lemma march_c_test_empty_range:
  "march_c_test link uart start_addr (start_addr - 1) = Inl ZeroDivisionError"
  by (simp add: march_c_test_def py_range_def progress_bar_def)

lemma march_c_test_inverted_range:
  "end_addr < start_addr - 1 \<Longrightarrow>
     march_c_test link uart start_addr end_addr = Inr ((True, []), uart)"
  by (simp add: march_c_test_def py_range_def progress_bar_def
      py_range_down.simps [of end_addr "start_addr - 1"])

lemma checkerboard_test_empty_range:
  "checkerboard_test link uart start_addr (start_addr - 1) = Inl ZeroDivisionError"
  by (simp add: checkerboard_test_def py_range_def progress_bar_def)

lemma address_uniqueness_test_empty_range:
  "address_uniqueness_test link uart start_addr (start_addr - 1) = Inl ZeroDivisionError"
  by (simp add: address_uniqueness_test_def py_range_def progress_bar_def)

section \<open>What stops a run, and a timeout that passes\<close>

text \<open>
  Claim C9 says that in any run a read that returns a wrong value, or that times out, adds
  one fault record and the run goes on to its end, and that only a failure of the
  connection unwinds a run. Take a device that never answers, on a connection that never
  fails. Over the range \<open>[1, 0]\<close>, which the custom range of \<^verbatim>\<open>main\<close> accepts, March C, the
  checkerboard and the address-uniqueness test raise \<^verbatim>\<open>ZeroDivisionError\<close>. Over the range
  \<open>[0xDEAD, 0xDEAD]\<close> the address-uniqueness test sends its write and its read, the read
  times out and returns \<open>0xDEAD\<close>, and the test returns no fault record for it.
\<close>

theorem run_unwinds_or_misses_timeout:
  "(\<forall>d c. silent_link d c \<noteq> None)
   \<and> march_c_test silent_link (open_port ()) 1 0 = Inl ZeroDivisionError
   \<and> checkerboard_test silent_link (open_port ()) 1 0 = Inl ZeroDivisionError
   \<and> address_uniqueness_test silent_link (open_port ()) 1 0 = Inl ZeroDivisionError
   \<and> link_holds silent_link (address_uniqueness_script 0xDEAD 0xDEAD) ()
   \<and> observations silent_link (address_uniqueness_script 0xDEAD 0xDEAD) (open_port ())
       = Inr ([0xDEAD],
              \<lparr>device = (), in_buffer = [],
               sent = [[0x57, 0x00, 0xDE, 0xAD, 0xDE, 0xAD], [0x52, 0x00, 0xDE, 0xAD]]\<rparr>)
   \<and> address_uniqueness_test silent_link (open_port ()) 0xDEAD 0xDEAD
       = Inr ((True, []),
              \<lparr>device = (), in_buffer = [],
               sent = [[0x57, 0x00, 0xDE, 0xAD, 0xDE, 0xAD], [0x52, 0x00, 0xDE, 0xAD]]\<rparr>)"
proof -
  have never_fails: "\<forall>d c. silent_link d c \<noteq> None"
    by (simp add: silent_link_def)
  have runs: "march_c_test silent_link (open_port ()) 1 0 = Inl ZeroDivisionError
   \<and> checkerboard_test silent_link (open_port ()) 1 0 = Inl ZeroDivisionError
   \<and> address_uniqueness_test silent_link (open_port ()) 1 0 = Inl ZeroDivisionError
   \<and> link_holds silent_link (address_uniqueness_script 0xDEAD 0xDEAD) ()
   \<and> observations silent_link (address_uniqueness_script 0xDEAD 0xDEAD) (open_port ())
       = Inr ([0xDEAD],
              \<lparr>device = (), in_buffer = [],
               sent = [[0x57, 0x00, 0xDE, 0xAD, 0xDE, 0xAD], [0x52, 0x00, 0xDE, 0xAD]]\<rparr>)
   \<and> address_uniqueness_test silent_link (open_port ()) 0xDEAD 0xDEAD
       = Inr ((True, []),
              \<lparr>device = (), in_buffer = [],
               sent = [[0x57, 0x00, 0xDE, 0xAD, 0xDE, 0xAD], [0x52, 0x00, 0xDE, 0xAD]]\<rparr>)"
    by code_simp
  from never_fails runs show ?thesis
    by (rule conjI)
qed

section \<open>Values out of range\<close>

text \<open>
  The terminal of mram\_test.py checks the address and the data of a command before it
  calls \<^verbatim>\<open>write_mram\<close> or \<^verbatim>\<open>read_mram\<close>: out of range, the port is left as it was and
  nothing is sent.
\<close>

lemma terminal_rejects:
  assumes "addr < 0 \<or> addr > 0x3FFFF \<or> data < 0 \<or> data > 0xFFFF"
  shows "terminal_write link s addr data = s"
  using assms by (auto simp add: terminal_write_def)

lemma terminal_read_rejects:
  assumes "addr < 0 \<or> addr > 0x3FFFF"
  shows "terminal_read link s addr = s"
  using assms by (auto simp add: terminal_read_def)

text \<open>
  \<^verbatim>\<open>write_mram\<close> and \<^verbatim>\<open>read_mram\<close> themselves check nothing: the command carries the low
  18 bits of the address and the low 16 bits of the data, whatever the values are.
\<close>

lemma masked_bytes:
  "(drop_bit 16 (take_bit 18 a)) AND 0x03 = (drop_bit 16 (a::int)) AND 0x03"
  "(drop_bit 8 (take_bit 18 a)) AND 0xFF = (drop_bit 8 a) AND 0xFF"
  "(take_bit 18 a) AND 0xFF = a AND 0xFF"
  "(drop_bit 8 (take_bit 16 a)) AND 0xFF = (drop_bit 8 a) AND 0xFF"
  "(take_bit 16 a) AND 0xFF = a AND 0xFF"
  unfolding and_FF_take and_3_take
  by (rule bit_eqI, auto simp add: bit_simps)+

lemma commands_truncate:
  "write_mram_cmd addr data = write_mram_cmd (take_bit 18 addr) (take_bit 16 data)"
  "read_mram_cmd addr = read_mram_cmd (take_bit 18 addr)"
  by (simp_all only: write_mram_cmd_def read_mram_cmd_def masked_bytes)

text \<open>
  Claim C5 says that a write or a read whose address is outside \<open>[0, 0x3FFFF]\<close>, or whose
  data is outside \<open>[0, 0xFFFF]\<close>, is rejected before encoding, that no byte of it is sent
  and that the value is never truncated. In march\_test.py it is sent truncated:
  \<^verbatim>\<open>write_mram(0x40000, 0x0000)\<close> sends the command of address \<open>0x00000\<close>,
  \<^verbatim>\<open>read_mram(0x40000)\<close> sends the read command of address \<open>0x00000\<close>, and March C over
  the range \<open>[0x40000, 0x40000]\<close>, which the custom range of \<^verbatim>\<open>main\<close> accepts, puts on the
  line the bytes of March C over \<open>[0, 0]\<close>. The same write entered at the terminal of
  mram\_test.py is rejected and sends nothing.
\<close>

theorem out_of_range_is_masked:
  "write_mram silent_link (open_port ()) 0x40000 0x0000 =
     Inr (True, \<lparr>device = (), in_buffer = [], sent = [[0x57, 0x00, 0x00, 0x00, 0x00, 0x00]]\<rparr>)
   \<and> write_mram silent_link (open_port ()) 0x40000 0x0000
       = write_mram silent_link (open_port ()) 0x00000 0x0000
   \<and> read_mram silent_link (open_port ()) 0x40000 =
     Inr (0xDEAD, \<lparr>device = (), in_buffer = [], sent = [[0x52, 0x00, 0x00, 0x00]]\<rparr>)
   \<and> map_sum id (sent \<circ> snd) (march_c_test silent_link (open_port ()) 0x40000 0x40000)
       = map_sum id (sent \<circ> snd) (march_c_test silent_link (open_port ()) 0x00000 0x00000)
   \<and> terminal_write silent_link (open_port ()) 0x40000 0x0000 = open_port ()"
  by code_simp

section \<open>Reads that time out\<close>

text \<open>
  Claim C6 says that a read that times out gives an outcome distinct from every 16-bit
  word, so that a fault record never confuses a timeout with a decoded word such as
  \<open>0xDEAD\<close>. \<^verbatim>\<open>read_mram\<close> of march\_test.py returns \<open>0xDEAD\<close> both when the device stays
  silent and when it answers with the bytes \<open>DE AD\<close>, where \<^verbatim>\<open>read_mram\<close> of main.py
  returns \<^verbatim>\<open>None\<close> and \<open>0xDEAD\<close>. So the address-uniqueness test on a silent device
  records no fault at the address \<open>0xDEAD\<close>, whose expected word is \<open>0xDEAD\<close>: over
  \<open>[0xDEAD, 0xDEAD]\<close> it passes, and over \<open>[0xDEAC, 0xDEAE]\<close> it reports the two other
  addresses only.
\<close>

theorem timeout_reads_as_word:
  "map_sum id fst (read_mram silent_link (open_port ()) 0x00101) = Inr 0xDEAD
   \<and> map_sum id fst (read_mram (constant_link 0xDE 0xAD) (open_port ()) 0x00101) = Inr 0xDEAD
   \<and> map_sum id fst (main_read_mram silent_link (open_port ()) 0x00101) = Inr None
   \<and> map_sum id fst (main_read_mram (constant_link 0xDE 0xAD) (open_port ()) 0x00101)
       = Inr (Some 0xDEAD)
   \<and> map_sum id fst (address_uniqueness_test silent_link (open_port ()) 0xDEAD 0xDEAD)
       = Inr (True, [])
   \<and> map_sum id fst (address_uniqueness_test silent_link (open_port ()) 0xDEAC 0xDEAE)
       = Inr (False, [(0xDEAC, ''AddressUnique'', 0xDEAC, 0xDEAD),
                      (0xDEAE, ''AddressUnique'', 0xDEAE, 0xDEAD)])"
  by code_simp

end
